theory Spec2Isabelle
  imports Complex_Main "HOL-Library.Log_Nat" "HOL-Library.AList" "HOL-Library.Sublist"
begin

section \<open>JavaScript values\<close>

subsection \<open>Numbers\<close>

text \<open>
  A JavaScript number is an IEEE 754 double: not-a-number, one of the two infinities, or
  a finite value, kept here as the real number it denotes. Negative zero is identified
  with zero: the code below never divides by a number nor prints one, and \<open>-0\<close> is as
  falsy as \<open>0\<close>.
\<close>

datatype number = NaN | PInf | NInf | Fin real

definition isNaN :: "number \<Rightarrow> bool" where
  "isNaN n = (n = NaN)"

text \<open>The relational operators: every comparison with \<open>NaN\<close> is false.\<close>

fun num_less :: "number \<Rightarrow> number \<Rightarrow> bool" where
  "num_less NaN _ = False"
| "num_less _ NaN = False"
| "num_less PInf _ = False"
| "num_less _ NInf = False"
| "num_less NInf _ = True"
| "num_less (Fin a) PInf = True"
| "num_less (Fin a) (Fin b) = (a < b)"

definition num_le :: "number \<Rightarrow> number \<Rightarrow> bool" where
  "num_le a b = (\<not> isNaN a \<and> \<not> isNaN b \<and> \<not> num_less b a)"

definition num_ge :: "number \<Rightarrow> number \<Rightarrow> bool" where
  "num_ge a b = num_le b a"

definition num_gt :: "number \<Rightarrow> number \<Rightarrow> bool" where
  "num_gt a b = num_less b a"

text \<open>
  Rounding a real to the nearest double, ties to even. A finite double is \<open>m * 2 ^ e\<close>
  for an integer significand \<open>m\<close> of at most 53 bits and an exponent \<open>e\<close> from \<open>-1074\<close>
  (the subnormals) to \<open>971\<close>; a result beyond the largest of them is an infinity.
\<close>

definition floor_log2 :: "real \<Rightarrow> int" where
  "floor_log2 x =
     (if 1 \<le> x then bitlen \<lfloor>x\<rfloor> - 1 else - bitlen (\<lceil>1 / x\<rceil> - 1))"

definition pow2 :: "int \<Rightarrow> real" where
  "pow2 k = (if 0 \<le> k then 2 ^ nat k else 1 / 2 ^ nat (- k))"

definition rne :: "real \<Rightarrow> int" where
  "rne r =
     (let f = \<lfloor>r\<rfloor>; d = r - of_int f
      in if d < 1 / 2 then f else if 1 / 2 < d then f + 1 else if even f then f else f + 1)"

definition round_double :: "real \<Rightarrow> number" where
  "round_double x =
     (if x = 0 then Fin 0
      else
        let e = max (floor_log2 \<bar>x\<bar> - 52) (- 1074);
            m = rne (x / pow2 e)
        in if 971 < e \<or> (e = 971 \<and> 2 ^ 53 \<le> \<bar>m\<bar>) then (if 0 < x then PInf else NInf)
           else Fin (of_int m * pow2 e))"

text \<open>The \<open>+\<close> of two numbers.\<close>

fun js_add :: "number \<Rightarrow> number \<Rightarrow> number" where
  "js_add NaN _ = NaN"
| "js_add _ NaN = NaN"
| "js_add PInf NInf = NaN"
| "js_add NInf PInf = NaN"
| "js_add PInf _ = PInf"
| "js_add _ PInf = PInf"
| "js_add NInf _ = NInf"
| "js_add _ NInf = NInf"
| "js_add (Fin a) (Fin b) = round_double (a + b)"

text \<open>
  \<open>Math.max\<close> and \<open>Math.min\<close> of an argument list: the result for no argument is
  \<open>-Infinity\<close> and \<open>Infinity\<close>, and one \<open>NaN\<close> argument makes the result \<open>NaN\<close>.
\<close>

definition num_max :: "number \<Rightarrow> number \<Rightarrow> number" where
  "num_max a b = (if isNaN a \<or> isNaN b then NaN else if num_less a b then b else a)"

definition num_min :: "number \<Rightarrow> number \<Rightarrow> number" where
  "num_min a b = (if isNaN a \<or> isNaN b then NaN else if num_less b a then b else a)"

definition Math_max :: "number list \<Rightarrow> number" where
  "Math_max xs = foldl num_max NInf xs"

definition Math_min :: "number list \<Rightarrow> number" where
  "Math_min xs = foldl num_min PInf xs"

subsection \<open>Strings\<close>

text \<open>
  Strings are lists of 8-bit characters. White space is what \<open>String.prototype.trim\<close>
  and \<open>parseFloat\<close> strip in that range: tab, line feed, vertical tab, form feed,
  carriage return, space and the no-break space.
\<close>

definition is_ws :: "char \<Rightarrow> bool" where
  "is_ws c = (of_char c \<in> {9, 10, 11, 12, 13, 32, 160 :: nat})"

definition trim_start :: "string \<Rightarrow> string" where
  "trim_start s = dropWhile is_ws s"

definition trim :: "string \<Rightarrow> string" where
  "trim s = rev (dropWhile is_ws (rev (dropWhile is_ws s)))"

definition lower_char :: "char \<Rightarrow> char" where
  "lower_char c =
     (let n = (of_char c :: nat) in if 65 \<le> n \<and> n \<le> 90 then char_of (n + 32) else c)"

definition toLowerCase :: "string \<Rightarrow> string" where
  "toLowerCase s = map lower_char s"

fun str_includes :: "string \<Rightarrow> string \<Rightarrow> bool" where
  "str_includes [] sub = (sub = [])"
| "str_includes (c # cs) sub = (prefix sub (c # cs) \<or> str_includes cs sub)"

text \<open>\<open>s.split(d)\<close> and \<open>parts.join(d)\<close> for a one-character separator.\<close>

fun split_on :: "char \<Rightarrow> string \<Rightarrow> string list" where
  "split_on d [] = [[]]"
| "split_on d (c # cs) =
     (if c = d then [] # split_on d cs
      else (case split_on d cs of [] \<Rightarrow> [[c]] | l # ls \<Rightarrow> (c # l) # ls))"

fun join_with :: "char \<Rightarrow> string list \<Rightarrow> string" where
  "join_with d [] = []"
| "join_with d [l] = l"
| "join_with d (l # l' # ls) = l @ d # join_with d (l' # ls)"

subsection \<open>Reading a number from a string\<close>

definition is_digit :: "char \<Rightarrow> bool" where
  "is_digit c = (48 \<le> (of_char c :: nat) \<and> (of_char c :: nat) \<le> 57)"

definition digit_val :: "char \<Rightarrow> int" where
  "digit_val c = of_char c - 48"

fun digits_val :: "int \<Rightarrow> string \<Rightarrow> int" where
  "digits_val acc [] = acc"
| "digits_val acc (c # cs) = digits_val (10 * acc + digit_val c) cs"

definition pow10 :: "int \<Rightarrow> real" where
  "pow10 k = (if 0 \<le> k then 10 ^ nat k else 1 / 10 ^ nat (- k))"

text \<open>
  The exponent part of a decimal literal, when one is there: \<open>e\<close> or \<open>E\<close>, an optional
  sign and at least one digit. The result is the exponent and the rest of the string.
\<close>

definition scan_exponent :: "string \<Rightarrow> int \<times> string" where
  "scan_exponent s =
     (case s of
        [] \<Rightarrow> (0, s)
      | c # r \<Rightarrow>
          if c = CHR ''e'' \<or> c = CHR ''E'' then
            (let neg = (case r of [] \<Rightarrow> False | x # _ \<Rightarrow> x = CHR ''-'');
                 r' = (case r of [] \<Rightarrow> r
                       | x # t \<Rightarrow> if x = CHR ''+'' \<or> x = CHR ''-'' then t else r);
                 ds = takeWhile is_digit r'
             in if ds = [] then (0, s)
                else ((if neg then - digits_val 0 ds else digits_val 0 ds),
                      dropWhile is_digit r'))
          else (0, s))"

text \<open>
  The longest prefix that is an unsigned decimal literal (\<open>Infinity\<close>, digits with an
  optional fraction, or a fraction alone, each with an optional exponent): its value,
  \<open>None\<close> standing for infinity, and the rest of the string.
\<close>

definition scan_unsigned :: "string \<Rightarrow> (real option \<times> string) option" where
  "scan_unsigned s =
     (if prefix ''Infinity'' s then Some (None, drop 8 s)
      else
        let ip = takeWhile is_digit s; r1 = dropWhile is_digit s
        in (case r1 of
              [] \<Rightarrow> if ip = [] then None else Some (Some (of_int (digits_val 0 ip)), r1)
            | c # r2 \<Rightarrow>
                if c = CHR ''.'' then
                  (let fp = takeWhile is_digit r2; r3 = dropWhile is_digit r2
                   in if ip = [] \<and> fp = [] then None
                      else (case scan_exponent r3 of
                              (e, rest) \<Rightarrow>
                                Some (Some (of_int (digits_val 0 (ip @ fp)) *
                                            pow10 (e - int (length fp))), rest)))
                else if ip = [] then None
                else (case scan_exponent r1 of
                        (e, rest) \<Rightarrow> Some (Some (of_int (digits_val 0 ip) * pow10 e), rest))))"

definition scan_decimal :: "string \<Rightarrow> (number \<times> string) option" where
  "scan_decimal s =
     (let neg = (case s of [] \<Rightarrow> False | c # _ \<Rightarrow> c = CHR ''-'');
          u = (case s of [] \<Rightarrow> s
               | c # t \<Rightarrow> if c = CHR ''+'' \<or> c = CHR ''-'' then t else s)
      in (case scan_unsigned u of
            None \<Rightarrow> None
          | Some (None, rest) \<Rightarrow> Some ((if neg then NInf else PInf), rest)
          | Some (Some v, rest) \<Rightarrow> Some (round_double (if neg then - v else v), rest)))"

text \<open>
  \<open>parseFloat\<close>: leading white space is skipped, the longest prefix that is a decimal
  literal is read, and anything after it is ignored; with no such prefix the result is
  \<open>NaN\<close>.
\<close>

definition parseFloat :: "string \<Rightarrow> number" where
  "parseFloat s = (case scan_decimal (trim_start s) of None \<Rightarrow> NaN | Some (n, _) \<Rightarrow> n)"

text \<open>
  The conversion of a string to a number (\<open>Number(s)\<close>, and what \<open>>=\<close> and \<open>Math.max\<close> do
  to a string operand): white space is trimmed on both sides, the empty string is \<open>0\<close>, and
  the whole rest must be one literal, decimal or with a radix prefix.
\<close>

definition radix_digit :: "int \<Rightarrow> char \<Rightarrow> int option" where
  "radix_digit b c =
     (let n = (of_char c :: int);
          v = (if 48 \<le> n \<and> n \<le> 57 then Some (n - 48)
               else if 97 \<le> n \<and> n \<le> 102 then Some (n - 87)
               else if 65 \<le> n \<and> n \<le> 70 then Some (n - 55)
               else None)
      in (case v of None \<Rightarrow> None | Some d \<Rightarrow> if d < b then Some d else None))"

fun radix_val :: "int \<Rightarrow> int \<Rightarrow> string \<Rightarrow> int option" where
  "radix_val b acc [] = Some acc"
| "radix_val b acc (c # cs) =
     (case radix_digit b c of None \<Rightarrow> None | Some d \<Rightarrow> radix_val b (b * acc + d) cs)"

definition scan_radix :: "string \<Rightarrow> number option" where
  "scan_radix s =
     (case s of
        z # p # ds \<Rightarrow>
          if z = CHR ''0'' \<and> ds \<noteq> [] then
            (let b = (if p = CHR ''x'' \<or> p = CHR ''X'' then 16
                      else if p = CHR ''o'' \<or> p = CHR ''O'' then 8
                      else if p = CHR ''b'' \<or> p = CHR ''B'' then 2 else (0::int))
             in (case radix_val b 0 ds of
                   None \<Rightarrow> None
                 | Some v \<Rightarrow> if b = 0 then None else Some (round_double (of_int v))))
          else None
      | _ \<Rightarrow> None)"

definition StringToNumber :: "string \<Rightarrow> number" where
  "StringToNumber s =
     (let t = trim s
      in if t = [] then Fin 0
         else (case scan_radix t of
                 Some n \<Rightarrow> n
               | None \<Rightarrow>
                   (case scan_decimal t of
                      None \<Rightarrow> NaN
                    | Some (n, rest) \<Rightarrow> if rest = [] then n else NaN)))"

subsection \<open>Values, objects, errors and the console\<close>

text \<open>
  The values a parsed CSV record holds: strings and numbers, and \<open>undefined\<close> for a
  property that is not there. An object is the list of its properties in insertion
  order; assigning to a key that is there replaces its value in place.
\<close>

datatype jsval = Undefined | Str string | Num number

type_synonym object = "(string \<times> jsval) list"

definition get_prop :: "object \<Rightarrow> string \<Rightarrow> jsval" where
  "get_prop obj k = (case map_of obj k of None \<Rightarrow> Undefined | Some v \<Rightarrow> v)"

definition has_prop :: "object \<Rightarrow> string \<Rightarrow> bool" where
  "has_prop obj k = (map_of obj k \<noteq> None)"

definition truthy :: "jsval \<Rightarrow> bool" where
  "truthy v =
     (case v of Undefined \<Rightarrow> False | Str s \<Rightarrow> s \<noteq> [] | Num n \<Rightarrow> n \<noteq> NaN \<and> n \<noteq> Fin 0)"

definition ToNumber :: "jsval \<Rightarrow> number" where
  "ToNumber v = (case v of Undefined \<Rightarrow> NaN | Str s \<Rightarrow> StringToNumber s | Num n \<Rightarrow> n)"

text \<open>
  What is thrown: an \<open>Error\<close> with its message (the only kind the repository's own code
  throws), an error of the CSV library with its code, a failure of the file system, and
  a \<open>TypeError\<close> of the language.
\<close>

datatype js_error = Error string | CsvError string | FsError string | TypeError string

text \<open>
  What is written to the console: the coordinate warning with the record's location and
  the two coordinates it read, and the error report of a loader with its label.
\<close>

datatype log_entry = WarnInvalidCoordinates jsval jsval jsval | LogError string js_error

section \<open>The CSV library\<close>

text \<open>
  Both parsers call \<open>parse\<close> of the \<open>csv-parse\<close> package with the options
  \<open>columns: true\<close>, \<open>skip_empty_lines: true\<close> and a \<open>cast\<close> callback. The package is not
  part of the repository. Its splitting of the text into records of raw fields (quoting,
  record delimiters, the skipping of empty lines) is a parameter here: a lexer gives the
  records it reads up to the first place it cannot read, and the error of that place
  when there is one. What the package does with the records is written out:
  \<^item> every field goes through the callback as soon as it is read, with the column it
    belongs to; on the first record, which names the columns, that column is the field's
    index, afterwards it is the column's name, and \<open>null\<close> for a field past the last
    column;
  \<^item> the first error, of the callback or of the package, ends the parse;
  \<^item> a record with another number of fields than the header is an error;
  \<^item> a record becomes an object, its fields assigned to the column names in order.
\<close>

type_synonym lexer = "string \<Rightarrow> string list list \<times> js_error option"

datatype column = ColIndex nat | ColName string | ColNull

type_synonym cast_fn = "string \<Rightarrow> column \<Rightarrow> js_error + jsval"

fun cast_fields :: "cast_fn \<Rightarrow> (nat \<Rightarrow> column) \<Rightarrow> nat \<Rightarrow> string list \<Rightarrow> js_error + jsval list" where
  "cast_fields cast col i [] = Inr []"
| "cast_fields cast col i (v # vs) =
     (case cast v (col i) of
        Inl e \<Rightarrow> Inl e
      | Inr x \<Rightarrow>
          (case cast_fields cast col (Suc i) vs of Inl e \<Rightarrow> Inl e | Inr xs \<Rightarrow> Inr (x # xs)))"

text \<open>
  The column names are the cast fields of the first record. Both callbacks of the
  repository return a string for each of them; another value is reported as the
  package's error for a column that is not a name.
\<close>

fun column_names :: "jsval list \<Rightarrow> js_error + string list" where
  "column_names [] = Inr []"
| "column_names (Str s # vs) =
     (case column_names vs of Inl e \<Rightarrow> Inl e | Inr ns \<Rightarrow> Inr (s # ns))"
| "column_names (_ # vs) = Inl (CsvError ''CSV_INVALID_COLUMN_DEFINITION'')"

definition data_column :: "string list \<Rightarrow> nat \<Rightarrow> column" where
  "data_column names i = (if i < length names then ColName (names ! i) else ColNull)"

fun parse_records :: "cast_fn \<Rightarrow> string list \<Rightarrow> string list list \<Rightarrow> js_error + object list" where
  "parse_records cast names [] = Inr []"
| "parse_records cast names (row # rows) =
     (case cast_fields cast (data_column names) 0 row of
        Inl e \<Rightarrow> Inl e
      | Inr vals \<Rightarrow>
          if length vals \<noteq> length names then Inl (CsvError ''CSV_RECORD_INCONSISTENT_COLUMNS'')
          else (case parse_records cast names rows of
                  Inl e \<Rightarrow> Inl e
                | Inr recs \<Rightarrow> Inr (AList.updates names vals [] # recs)))"

definition parse_rows :: "cast_fn \<Rightarrow> string list list \<Rightarrow> js_error + object list" where
  "parse_rows cast rows =
     (case rows of
        [] \<Rightarrow> Inr []
      | header # data \<Rightarrow>
          (case cast_fields cast ColIndex 0 header of
             Inl e \<Rightarrow> Inl e
           | Inr hv \<Rightarrow>
               (case column_names hv of
                  Inl e \<Rightarrow> Inl e
                | Inr names \<Rightarrow> parse_records cast names data)))"

definition parse :: "lexer \<Rightarrow> cast_fn \<Rightarrow> string \<Rightarrow> js_error + object list" where
  "parse lx cast input =
     (case lx input of
        (rows, trailing) \<Rightarrow>
          (case parse_rows cast rows of
             Inl e \<Rightarrow> Inl e
           | Inr recs \<Rightarrow> (case trailing of None \<Rightarrow> Inr recs | Some e \<Rightarrow> Inl e)))"

text \<open>
  The lexer for a text with no quote character and no carriage return: the records are
  the lines that are not empty, the fields are what the commas separate.
\<close>

definition simple_lex :: lexer where
  "simple_lex s =
     (map (split_on CHR '','') (filter (\<lambda>l. l \<noteq> []) (split_on (CHR 0x0A) s)), None)"

section \<open>The generic parser and its loaders\<close>

text \<open>\<open>validateCoordinates\<close>: a fixed inclusive box.\<close>

definition validateCoordinates :: "number \<Rightarrow> number \<Rightarrow> bool" where
  "validateCoordinates lat lng =
     (num_ge lat (Fin 31) \<and> num_le lat (Fin 32) \<and> num_ge lng (Fin 34) \<and> num_le lng (Fin 35))"

text \<open>
  The \<open>cast\<close> callback of \<open>parseCSVWithCoordinates\<close>. \<open>includes\<close> compares with the
  strings of the two lists, so a column that is an index or \<open>null\<close> is in neither.
\<close>

definition invalid_numeric_message :: "string \<Rightarrow> string \<Rightarrow> string" where
  "invalid_numeric_message v c =
     ''Invalid numeric value '' @ [CHR 0x22] @ v @ [CHR 0x22] @
     '' in column '' @ [CHR 0x22] @ c @ [CHR 0x22]"

definition cast_generic :: "string list \<Rightarrow> string list \<Rightarrow> cast_fn" where
  "cast_generic numericColumns coordinateColumns v col =
     (case col of
        ColName c \<Rightarrow>
          if c \<in> set numericColumns \<or> c \<in> set coordinateColumns then
            (let num = parseFloat v
             in if isNaN num then Inl (Error (invalid_numeric_message v c)) else Inr (Num num))
          else Inr (Str (trim v))
      | _ \<Rightarrow> Inr (Str (trim v)))"

text \<open>
  The second step of \<open>parseCSVWithCoordinates\<close> visits every record: when each
  coordinate column is a property of the record, the first two are read and validated,
  and a failure is a warning on the console. \<open>coordinateColumns[i]\<close> past the end of the
  list is \<open>undefined\<close>, which as a property key is the string \<open>undefined\<close>. The step
  returns the record it was given.
\<close>

definition key_at :: "string list \<Rightarrow> nat \<Rightarrow> string" where
  "key_at cols i = (if i < length cols then cols ! i else ''undefined'')"

definition coordinate_warning :: "string list \<Rightarrow> object \<Rightarrow> log_entry list" where
  "coordinate_warning coordinateColumns record =
     (if list_all (has_prop record) coordinateColumns then
        (let lat = get_prop record (key_at coordinateColumns 0);
             lng = get_prop record (key_at coordinateColumns 1)
         in if \<not> validateCoordinates (ToNumber lat) (ToNumber lng)
            then [WarnInvalidCoordinates (get_prop record ''location'') lat lng]
            else [])
      else [])"

definition parseCSVWithCoordinates ::
  "lexer \<Rightarrow> string \<Rightarrow> string list \<Rightarrow> string list \<Rightarrow> js_error + (object list \<times> log_entry list)" where
  "parseCSVWithCoordinates lx csvContent numericColumns coordinateColumns =
     (case parse lx (cast_generic numericColumns coordinateColumns) csvContent of
        Inl e \<Rightarrow> Inl e
      | Inr records \<Rightarrow>
          Inr (map (\<lambda>record. record) records,
               concat (map (coordinate_warning coordinateColumns) records)))"

text \<open>
  The loaders read one file each. The file system is a function from a path, relative
  to the working directory, to the content of the file or to the error of reading it.
  A loader returns its result, the records or the error it throws, with what it wrote to
  the console. The three loaders have one body, \<open>load_generic\<close> here, and differ in the
  path, the numeric columns and the name of the dataset in the two messages.
\<close>

type_synonym filesystem = "string \<Rightarrow> js_error + string"

definition load_generic ::
  "lexer \<Rightarrow> filesystem \<Rightarrow> string \<Rightarrow> string list \<Rightarrow> string \<Rightarrow>
   (js_error + object list) \<times> log_entry list" where
  "load_generic lx fs csvPath numericColumns dataset =
     (case (case fs csvPath of
              Inl e \<Rightarrow> Inl e
            | Inr csvContent \<Rightarrow>
                parseCSVWithCoordinates lx csvContent numericColumns [''latitude'', ''longitude'']) of
        Inl e \<Rightarrow>
          (Inl (Error (''Failed to load '' @ dataset @ '' data'')),
           [LogError (''Error loading '' @ dataset @ '' data:'') e])
      | Inr (records, warnings) \<Rightarrow> (Inr records, warnings))"

definition loadCasualtiesData :: "lexer \<Rightarrow> filesystem \<Rightarrow> (js_error + object list) \<times> log_entry list" where
  "loadCasualtiesData lx fs =
     load_generic lx fs ''data/casualties.csv''
       [''killed'', ''injured'', ''children_killed'', ''women_killed'', ''latitude'', ''longitude'']
       ''casualties''"

definition loadInfrastructureData :: "lexer \<Rightarrow> filesystem \<Rightarrow> (js_error + object list) \<times> log_entry list" where
  "loadInfrastructureData lx fs =
     load_generic lx fs ''data/infrastructure.csv''
       [''hospitals_damaged'', ''schools_damaged'', ''homes_destroyed'', ''latitude'', ''longitude'']
       ''infrastructure''"

definition loadDisplacementData :: "lexer \<Rightarrow> filesystem \<Rightarrow> (js_error + object list) \<times> log_entry list" where
  "loadDisplacementData lx fs =
     load_generic lx fs ''data/displacement.csv''
       [''people_displaced'', ''displacement_centers'', ''capacity'', ''latitude'', ''longitude'']
       ''displacement''"

section \<open>The aggregations over geographic records\<close>

record GeographicData =
  latitude :: number
  longitude :: number
  location :: string
  area :: string

record Bounds =
  north :: number
  south :: number
  east :: number
  west :: number

text \<open>
  \<open>getUniqueLocations\<close> keeps a \<open>Map\<close> from the key \<open>location-area\<close> to the first record
  with that key, and returns its values in insertion order.
\<close>

definition location_key :: "'a GeographicData_scheme \<Rightarrow> string" where
  "location_key r = location r @ ''-'' @ area r"

definition add_location ::
  "(string \<times> GeographicData) list \<Rightarrow> 'a GeographicData_scheme \<Rightarrow> (string \<times> GeographicData) list" where
  "add_location locationMap r =
     (if map_of locationMap (location_key r) \<noteq> None then locationMap
      else locationMap @
        [(location_key r,
          \<lparr>latitude = latitude r, longitude = longitude r, location = location r, area = area r\<rparr>)])"

definition getUniqueLocations :: "'a GeographicData_scheme list \<Rightarrow> GeographicData list" where
  "getUniqueLocations records = map snd (foldl add_location [] records)"

definition calculateBounds :: "'a GeographicData_scheme list \<Rightarrow> Bounds" where
  "calculateBounds records =
     (if length records = 0 then
        \<lparr>north = round_double 31.6, south = round_double 31.2,
         east = round_double 34.5, west = round_double 34.2\<rparr>
      else
        (let lats = map latitude records; lngs = map longitude records
         in \<lparr>north = Math_max lats, south = Math_min lats,
             east = Math_max lngs, west = Math_min lngs\<rparr>))"

section \<open>The displacement-events endpoint\<close>

text \<open>
  \<open>GET\<close> reads \<open>data/event_data_pse.csv\<close>, drops its second line, parses the rest with a
  callback of its own, filters, splits and sums the records, and answers with a JSON
  body. Every statement of it stands in one \<open>try\<close> block, whose \<open>catch\<close> answers with
  status 500.
\<close>

text \<open>
  The cleaned text: the lines of the content, the first kept, the second dropped.
  \<open>split\<close> never returns the empty list; for it \<open>lines[0]\<close> would be \<open>undefined\<close>, which
  \<open>join\<close> writes as the empty string.
\<close>

definition cleanedCSV :: "string \<Rightarrow> string" where
  "cleanedCSV csvContent =
     (let lines = split_on (CHR 0x0A) csvContent;
          headers = (case lines of [] \<Rightarrow> [] | l # _ \<Rightarrow> l);
          dataLines = drop 2 lines
      in join_with (CHR 0x0A) (headers # dataLines))"

definition cast_events :: cast_fn where
  "cast_events v col =
     (case col of
        ColName c \<Rightarrow>
          if c \<in> set [''latitude'', ''longitude'', ''figure'', ''year''] then
            (let num = parseFloat v in Inr (Num (if isNaN num then Fin 0 else num)))
          else Inr (Str v)
      | _ \<Rightarrow> Inr (Str v))"

text \<open>The filter of the valid records.\<close>

definition is_valid_event :: "object \<Rightarrow> bool" where
  "is_valid_event record =
     (truthy (get_prop record ''latitude'') \<and>
      truthy (get_prop record ''longitude'') \<and>
      num_gt (ToNumber (get_prop record ''figure'')) (Fin 0) \<and>
      truthy (get_prop record ''displacement_date'') \<and>
      get_prop record ''country'' = Str ''Palestine'')"

definition validRecords :: "object list \<Rightarrow> object list" where
  "validRecords records = filter is_valid_event records"

text \<open>
  \<open>record.locations_name.toLowerCase().includes('gaza')\<close>: a \<open>TypeError\<close> unless the
  property is a string. \<open>toLowerCase\<close> is modelled on the letters A to Z, which are the
  only characters it maps to a letter of \<open>gaza\<close>.
\<close>

definition is_gaza :: "object \<Rightarrow> js_error + bool" where
  "is_gaza record =
     (case get_prop record ''locations_name'' of
        Str s \<Rightarrow> Inr (str_includes (toLowerCase s) ''gaza'')
      | _ \<Rightarrow> Inl (TypeError ''toLowerCase''))"

definition is_not_gaza :: "object \<Rightarrow> js_error + bool" where
  "is_not_gaza record = (case is_gaza record of Inl e \<Rightarrow> Inl e | Inr b \<Rightarrow> Inr (\<not> b))"

fun filter_throwing :: "('a \<Rightarrow> js_error + bool) \<Rightarrow> 'a list \<Rightarrow> js_error + 'a list" where
  "filter_throwing p [] = Inr []"
| "filter_throwing p (x # xs) =
     (case p x of
        Inl e \<Rightarrow> Inl e
      | Inr b \<Rightarrow>
          (case filter_throwing p xs of
             Inl e \<Rightarrow> Inl e
           | Inr ys \<Rightarrow> Inr (if b then x # ys else ys)))"

text \<open>
  \<open>reduce((sum, record) => sum + record.figure, 0)\<close>. A figure that is a number is added;
  one that is \<open>undefined\<close> makes the sum \<open>NaN\<close>, as here. On a string \<open>+\<close> would
  concatenate, which is not modelled: the callback makes every figure a number.
\<close>

definition figure :: "object \<Rightarrow> number" where
  "figure record = ToNumber (get_prop record ''figure'')"

definition sum_figures :: "object list \<Rightarrow> number" where
  "sum_figures records = foldl (\<lambda>sum record. js_add sum (figure record)) (Fin 0) records"

record Summary =
  total_events :: nat
  total_displaced :: number
  gaza_displaced :: number
  west_bank_displaced :: number
  gaza_events_count :: nat
  west_bank_events_count :: nat
  largest_displacement :: number

record EventsPayload =
  gaza_events :: "object list"
  west_bank_events :: "object list"
  summary :: Summary
  bounds :: Bounds

text \<open>
  The bounds of the endpoint are computed in place, with no case for the empty list.
  \<open>Math.max\<close> converts each argument to a number.
\<close>

definition events_bounds :: "object list \<Rightarrow> Bounds" where
  "events_bounds valid =
     (let lats = map (\<lambda>r. ToNumber (get_prop r ''latitude'')) valid;
          lngs = map (\<lambda>r. ToNumber (get_prop r ''longitude'')) valid
      in \<lparr>north = Math_max lats, south = Math_min lats,
          east = Math_max lngs, west = Math_min lngs\<rparr>)"

text \<open>
  The body of the \<open>try\<close> block. Of the answer, the fields \<open>data\<close>, \<open>date_range\<close>,
  \<open>most_recent_event\<close>, \<open>sources\<close> and \<open>event_types\<close> are left out: they read dates and
  sort the valid records in place, and nothing below depends on them.
\<close>

definition events_payload :: "object list \<Rightarrow> js_error + EventsPayload" where
  "events_payload records =
     (let valid = validRecords records
      in (case filter_throwing is_gaza valid of
            Inl e \<Rightarrow> Inl e
          | Inr gazaEvents \<Rightarrow>
              (case filter_throwing is_not_gaza valid of
                 Inl e \<Rightarrow> Inl e
               | Inr westBankEvents \<Rightarrow>
                   Inr \<lparr>gaza_events = gazaEvents,
                        west_bank_events = westBankEvents,
                        summary =
                          \<lparr>total_events = length valid,
                           total_displaced = sum_figures valid,
                           gaza_displaced = sum_figures gazaEvents,
                           west_bank_displaced = sum_figures westBankEvents,
                           gaza_events_count = length gazaEvents,
                           west_bank_events_count = length westBankEvents,
                           largest_displacement = Math_max (map figure valid)\<rparr>,
                        bounds = events_bounds valid\<rparr>)))"

definition parse_events :: "lexer \<Rightarrow> string \<Rightarrow> js_error + object list" where
  "parse_events lx csvContent = parse lx cast_events (cleanedCSV csvContent)"

definition GET_body :: "lexer \<Rightarrow> filesystem \<Rightarrow> js_error + EventsPayload" where
  "GET_body lx fs =
     (case fs ''data/event_data_pse.csv'' of
        Inl e \<Rightarrow> Inl e
      | Inr csvContent \<Rightarrow>
          (case parse_events lx csvContent of
             Inl e \<Rightarrow> Inl e
           | Inr records \<Rightarrow> events_payload records))"

datatype body = Success EventsPayload | Failure string

datatype response = Response nat body

definition GET :: "lexer \<Rightarrow> filesystem \<Rightarrow> response \<times> log_entry list" where
  "GET lx fs =
     (case GET_body lx fs of
        Inl e \<Rightarrow>
          (Response 500 (Failure ''Failed to load displacement events data''),
           [LogError ''Error reading displacement events:'' e])
      | Inr payload \<Rightarrow> (Response 200 (Success payload), []))"

section \<open>Notions used in the statements\<close>

text \<open>A file system with one file.\<close>

definition single_file :: "string \<Rightarrow> string \<Rightarrow> filesystem" where
  "single_file path content p = (if p = path then Inr content else Inl (FsError ''ENOENT''))"

text \<open>
  A figure that is a whole number, not negative, and the real value of a number. The sums
  of such figures are computed without rounding as long as they stay below \<open>2 ^ 53\<close>.
\<close>

definition whole_number :: "number \<Rightarrow> bool" where
  "whole_number x = (case x of Fin r \<Rightarrow> 0 \<le> r \<and> of_int \<lfloor>r\<rfloor> = r | _ \<Rightarrow> False)"

definition value_of :: "number \<Rightarrow> real" where
  "value_of x = (case x of Fin r \<Rightarrow> r | _ \<Rightarrow> 0)"

definition exact_total :: "object list \<Rightarrow> bool" where
  "exact_total records =
     (list_all (\<lambda>r. whole_number (figure r)) records \<and>
      sum_list (map (\<lambda>r. value_of (figure r)) records) < 2 ^ 53)"

text \<open>The Gaza test of a record, as a predicate: its location name is a string containing \<open>gaza\<close> in any case.\<close>

definition names_gaza :: "object \<Rightarrow> bool" where
  "names_gaza record =
     (case get_prop record ''locations_name'' of
        Str s \<Rightarrow> str_includes (toLowerCase s) ''gaza''
      | _ \<Rightarrow> False)"

section \<open>Example inputs\<close>

text \<open>
  A displacement-events file: the header, the metadata line, and four data rows. The third
  row has a figure that is not a number, the fourth another country.
\<close>

definition events_demo :: string where
  "events_demo = join_with (CHR 0x0A)
     [''country,latitude,longitude,figure,displacement_date,locations_name'',
      ''#country+name,#geo+lat,#geo+lon,#affected,#date,#loc'',
      ''Palestine,31.5,34.5,100,2023-10-07,Gaza City Shelter'',
      ''Palestine,31,35,250,2023-10-08,Ramallah Center'',
      ''Palestine,31,34,n/a,2023-10-09,Gaza'',
      ''Israel,31,34,50,2023-10-10,Gaza'']"

text \<open>A file with a header, a metadata line and three data rows.\<close>

definition three_rows_demo :: string where
  "three_rows_demo = join_with (CHR 0x0A) [''id,event_name'', ''#id,#name'', ''1,a'', ''2,b'', ''3,c'']"

text \<open>A file whose figures are \<open>10 ^ 16\<close>, \<open>1\<close> and \<open>1\<close>.\<close>

definition large_figures_demo :: string where
  "large_figures_demo = join_with (CHR 0x0A)
     [''country,latitude,longitude,figure,displacement_date,locations_name'',
      ''#country+name,#geo+lat,#geo+lon,#affected,#date,#loc'',
      ''Palestine,31,34,10000000000000000,2023-10-07,Gaza'',
      ''Palestine,31,35,1,2023-10-08,Hebron'',
      ''Palestine,31,35,1,2023-10-09,Jenin'']"

text \<open>A displacement-events file with no data row.\<close>

definition no_rows_demo :: string where
  "no_rows_demo = join_with (CHR 0x0A)
     [''country,latitude,longitude,figure,displacement_date,locations_name'',
      ''#country+name,#geo+lat,#geo+lon,#affected,#date,#loc'']"

text \<open>
  Two files for the generic parser: one whose second record lies outside the box of
  \<open>validateCoordinates\<close>, one whose second record has a latitude that is not a number.
\<close>

definition places_demo :: string where
  "places_demo = join_with (CHR 0x0A)
     [''latitude,longitude,location,area'',
      ''31.5,34.5, Gaza City ,north'',
      ''40,34,Far Away,south'']"

definition bad_places_demo :: string where
  "bad_places_demo = join_with (CHR 0x0A)
     [''latitude,longitude,location,area'',
      ''31.5,34.5,Gaza City,north'',
      ''abc,34,Rafah,south'']"


text \<open>
  Two records whose locations and areas differ and whose keys are equal.
\<close>

definition khan_younis_north :: GeographicData where
  "khan_younis_north =
     \<lparr>latitude = Fin 31, longitude = Fin 34, location = ''Khan Younis-North'', area = ''Gaza''\<rparr>"

definition khan_younis :: GeographicData where
  "khan_younis =
     \<lparr>latitude = Fin 32, longitude = Fin 35, location = ''Khan Younis'', area = ''North-Gaza''\<rparr>"

text \<open>The records and the payload that the first events file gives.\<close>

definition gaza_shelter :: object where
  "gaza_shelter =
     [(''country'', Str ''Palestine''), (''latitude'', Num (Fin (63 / 2))),
      (''longitude'', Num (Fin (69 / 2))), (''figure'', Num (Fin 100)),
      (''displacement_date'', Str ''2023-10-07''),
      (''locations_name'', Str ''Gaza City Shelter'')]"

definition ramallah_center :: object where
  "ramallah_center =
     [(''country'', Str ''Palestine''), (''latitude'', Num (Fin 31)),
      (''longitude'', Num (Fin 35)), (''figure'', Num (Fin 250)),
      (''displacement_date'', Str ''2023-10-08''),
      (''locations_name'', Str ''Ramallah Center'')]"

definition no_figure :: object where
  "no_figure =
     [(''country'', Str ''Palestine''), (''latitude'', Num (Fin 31)),
      (''longitude'', Num (Fin 34)), (''figure'', Num (Fin 0)),
      (''displacement_date'', Str ''2023-10-09''),
      (''locations_name'', Str ''Gaza'')]"

definition other_country :: object where
  "other_country =
     [(''country'', Str ''Israel''), (''latitude'', Num (Fin 31)),
      (''longitude'', Num (Fin 34)), (''figure'', Num (Fin 50)),
      (''displacement_date'', Str ''2023-10-10''),
      (''locations_name'', Str ''Gaza'')]"

definition events_demo_records :: "object list" where
  "events_demo_records = [gaza_shelter, ramallah_center, no_figure, other_country]"

definition events_demo_payload :: EventsPayload where
  "events_demo_payload =
     \<lparr>gaza_events = [gaza_shelter],
      west_bank_events = [ramallah_center],
      summary =
        \<lparr>total_events = 2, total_displaced = Fin 350,
         gaza_displaced = Fin 100, west_bank_displaced = Fin 250,
         gaza_events_count = 1, west_bank_events_count = 1,
         largest_displacement = Fin 250\<rparr>,
      bounds = \<lparr>north = Fin (63 / 2), south = Fin 31, east = Fin 35, west = Fin (69 / 2)\<rparr>\<rparr>"

text \<open>The payload that the file with no data row gives.\<close>

definition no_rows_payload :: EventsPayload where
  "no_rows_payload =
     \<lparr>gaza_events = [], west_bank_events = [],
      summary =
        \<lparr>total_events = 0, total_displaced = Fin 0,
         gaza_displaced = Fin 0, west_bank_displaced = Fin 0,
         gaza_events_count = 0, west_bank_events_count = 0,
         largest_displacement = NInf\<rparr>,
      bounds = \<lparr>north = NInf, south = PInf, east = NInf, west = PInf\<rparr>\<rparr>"

text \<open>The records that the first file of places gives.\<close>

definition places_demo_records :: "object list" where
  "places_demo_records =
     [[(''latitude'', Num (Fin (63 / 2))), (''longitude'', Num (Fin (69 / 2))),
       (''location'', Str ''Gaza City''), (''area'', Str ''north'')],
      [(''latitude'', Num (Fin 40)), (''longitude'', Num (Fin 34)),
       (''location'', Str ''Far Away''), (''area'', Str ''south'')]]"

section \<open>Lemmas\<close>

subsection \<open>Rounding\<close>

text \<open>
  A real that is a significand of fewer than 54 bits times a power of two in the range
  of the doubles is a double: rounding leaves it as it is. So the whole numbers below
  \<open>2 ^ 53\<close> are added without error.
\<close>

lemma pow2_powi: "pow2 k = 2 powi k"
  by (simp add: pow2_def power_int_def field_simps)

lemma pow2_pos: "0 < pow2 k"
  by (simp add: pow2_powi)

lemma rne_of_int: "rne (of_int j) = j"
  by (simp add: rne_def)

lemma floor_log2_le:
  assumes "0 < y"
  shows "pow2 (floor_log2 y) \<le> y"
proof (cases "1 \<le> y")
  case True
  then have pos: "0 < \<lfloor>y\<rfloor>" by linarith
  from bitlen_bounds[OF pos] have "2 ^ nat (bitlen \<lfloor>y\<rfloor> - 1) \<le> \<lfloor>y\<rfloor>" by simp
  then have "(2::real) ^ nat (bitlen \<lfloor>y\<rfloor> - 1) \<le> of_int \<lfloor>y\<rfloor>"
    by simp
  also have "\<dots> \<le> y" by linarith
  finally have a: "(2::real) ^ nat (bitlen \<lfloor>y\<rfloor> - 1) \<le> y" .
  have "1 \<le> bitlen \<lfloor>y\<rfloor>" using pos by (simp add: bitlen_alt_def)
  then show ?thesis using True a by (simp add: floor_log2_def pow2_def)
next
  case False
  define a where "a = \<lceil>1 / y\<rceil> - 1"
  have "1 < 1 / y" using False assms by simp
  then have pos: "0 < a" unfolding a_def by linarith
  have "1 / y \<le> of_int a + 1" unfolding a_def by simp
  moreover from bitlen_bounds[OF pos] have "a + 1 \<le> 2 ^ nat (bitlen a)" by simp
  then have "real_of_int a + 1 \<le> 2 ^ nat (bitlen a)"
    by (metis (mono_tags, lifting) numeral_power_eq_of_int_cancel_iff of_int_1
    of_int_add of_int_le_iff)
  ultimately have "1 / y \<le> 2 ^ nat (bitlen a)" by linarith
  then have "1 / 2 ^ nat (bitlen a) \<le> y" using assms
    by (simp add: field_simps)
  moreover have "0 < bitlen a" using pos by (simp add: bitlen_alt_def)
  ultimately show ?thesis using False by (simp add: floor_log2_def pow2_def a_def)
qed

lemma floor_log2_less:
  assumes "0 < y" "y < pow2 n"
  shows "floor_log2 y < n"
proof (rule ccontr)
  assume "\<not> floor_log2 y < n"
  then have "n \<le> floor_log2 y" by simp
  then have "(2::real) powi n \<le> 2 powi (floor_log2 y)"
    by (intro power_int_increasing) simp_all
  with floor_log2_le[OF assms(1)] assms(2) show False
    by (simp add: pow2_powi)
qed

lemma round_double_exact:
  assumes m: "\<bar>m\<bar> < 2 ^ 53" and k: "- 1074 \<le> k" "k \<le> 971"
  shows "round_double (of_int m * pow2 k) = Fin (of_int m * pow2 k)"
proof (cases "m = 0")
  case True
  then show ?thesis by (simp add: round_double_def)
next
  case False
  define x where "x = real_of_int m * pow2 k"
  define e where "e = max (floor_log2 \<bar>x\<bar> - 52) (- 1074)"
  have xne: "x \<noteq> 0" using False pow2_pos[of k] by (simp add: x_def)
  have absx: "\<bar>x\<bar> = of_int \<bar>m\<bar> * pow2 k"
    using pow2_pos[of k] by (simp add: x_def abs_mult)
  have "of_int \<bar>m\<bar> < (2::real) ^ 53" using m by (metis of_int_less_numeral_power_cancel_iff)
  then have "\<bar>x\<bar> < 2 ^ 53 * pow2 k"
    unfolding absx using pow2_pos[of k] by (simp add: mult_strict_right_mono)
  also have "\<dots> = pow2 (53 + k)"
    by (simp add: pow2_powi power_int_add)
  finally have "floor_log2 \<bar>x\<bar> < 53 + k"
    using floor_log2_less[of "\<bar>x\<bar>" "53 + k"] xne by simp
  then have ek: "e \<le> k" using k by (simp add: e_def)
  define j where "j = m * 2 ^ nat (k - e)"
  have pk: "pow2 k = 2 ^ nat (k - e) * pow2 e"
  proof -
    have "pow2 k = pow2 ((k - e) + e)" by simp
    also have "\<dots> = 2 powi (k - e) * 2 powi e"
      unfolding pow2_powi by (rule power_int_add) simp
    also have "2 powi (k - e) = (2::real) ^ nat (k - e)"
      using ek by (simp add: power_int_def)
    finally show ?thesis by (simp add: pow2_powi)
  qed
  have quot: "x / pow2 e = of_int j"
    using pow2_pos[of e] by (simp add: x_def j_def pk)
  have bk: "of_int j * pow2 e = x"
    by (simp add: x_def j_def pk)
  have e971: "e \<le> 971" using ek k by simp
  have j971: "\<bar>j\<bar> < 2 ^ 53" if "e = 971"
  proof -
    from that have "k = 971" using ek k by simp
    then have "j = m" using that by (simp add: j_def)
    then show ?thesis using m by simp
  qed
  have notover: "\<not> (971 < e \<or> (e = 971 \<and> 2 ^ 53 \<le> \<bar>rne (x / pow2 e)\<bar>))"
    using e971 j971 by (auto simp: quot rne_of_int)
  show ?thesis
    using xne notover unfolding round_double_def x_def[symmetric] Let_def e_def[symmetric]
    by (simp add: quot rne_of_int bk)
qed

lemma round_double_int: "\<bar>n\<bar> < 2 ^ 53 \<Longrightarrow> round_double (of_int n) = Fin (of_int n)"
  using round_double_exact[of n 0] by (simp add: pow2_def)

subsection \<open>Lines\<close>

text \<open>
  Splitting at a separator and joining with it are inverse on lists of lines, and the
  cleaned text of the endpoint has the lines of the content but the second.
\<close>

lemma split_on_nonempty: "split_on d s \<noteq> []"
  by (induction s) (auto split: list.splits)

lemma split_on_no_separator: "l \<in> set (split_on d s) \<Longrightarrow> d \<notin> set l"
proof (induction s arbitrary: l)
  case Nil
  then show ?case by simp
next
  case (Cons c cs)
  show ?case
  proof (cases "c = d")
    case True
    with Cons show ?thesis by auto
  next
    case False
    obtain l0 ls where sp: "split_on d cs = l0 # ls"
      using split_on_nonempty[of d cs] by (cases "split_on d cs") auto
    from Cons.prems False sp have "l = c # l0 \<or> l \<in> set ls" by auto
    then show ?thesis
    proof
      assume "l = c # l0"
      moreover have "d \<notin> set l0" using Cons.IH[of l0] sp by simp
      ultimately show ?thesis using False by auto
    next
      assume "l \<in> set ls"
      then show ?thesis using Cons.IH[of l] sp by simp
    qed
  qed
qed

lemma split_on_append_line:
  "d \<notin> set l \<Longrightarrow> split_on d (l @ d # s) = l # split_on d s"
  by (induction l) auto

lemma split_on_line: "d \<notin> set l \<Longrightarrow> split_on d l = [l]"
  by (induction l) auto

lemma split_on_join_with:
  "ls \<noteq> [] \<Longrightarrow> (\<And>l. l \<in> set ls \<Longrightarrow> d \<notin> set l) \<Longrightarrow> split_on d (join_with d ls) = ls"
proof (induction d ls rule: join_with.induct)
  case (1 d)
  then show ?case by simp
next
  case (2 d l)
  then show ?case by (simp add: split_on_line)
next
  case (3 d l l' ls)
  then show ?case by (simp add: split_on_append_line)
qed

lemma lines_cleanedCSV:
  "split_on (CHR 0x0A) (cleanedCSV c) =
     take 1 (split_on (CHR 0x0A) c) @ drop 2 (split_on (CHR 0x0A) c)"
proof -
  obtain l ls where sp: "split_on (CHR 0x0A) c = l # ls"
    using split_on_nonempty[of "CHR 0x0A" c] by (cases "split_on (CHR 0x0A) c") auto
  have "\<And>x. x \<in> set (l # drop 1 ls) \<Longrightarrow> CHR 0x0A \<notin> set x"
  proof -
    fix x assume "x \<in> set (l # drop 1 ls)"
    then have "x \<in> set (l # ls)" by (auto dest: in_set_dropD)
    then show "CHR 0x0A \<notin> set x" using split_on_no_separator[of x "CHR 0x0A" c] sp by simp
  qed
  then have "split_on (CHR 0x0A) (join_with (CHR 0x0A) (l # drop 1 ls)) = l # drop 1 ls"
    by (intro split_on_join_with) auto
  then show ?thesis by (simp add: cleanedCSV_def sp Let_def drop_Suc)
qed

subsection \<open>The records of the library\<close>

text \<open>
  What a successful and what a failed run of \<open>cast_fields\<close> and \<open>parse_records\<close>
  say about the fields, and the column names both callbacks give.
\<close>

lemma cast_fields_Inr_length:
  "cast_fields cast col i vs = Inr xs \<Longrightarrow> length xs = length vs"
  by (induction vs arbitrary: i xs) (auto split: sum.splits)

lemma cast_fields_Inr_nth:
  "cast_fields cast col i vs = Inr xs \<Longrightarrow> j < length vs \<Longrightarrow>
   cast (vs ! j) (col (i + j)) = Inr (xs ! j)"
proof (induction vs arbitrary: i xs j)
  case Nil
  then show ?case by simp
next
  case (Cons v vs)
  from Cons.prems(1) obtain x xs' where
    x: "cast v (col i) = Inr x" and xs': "cast_fields cast col (Suc i) vs = Inr xs'"
    and eq: "xs = x # xs'"
    by (auto split: sum.splits)
  show ?case
  proof (cases j)
    case 0
    then show ?thesis using x eq by simp
  next
    case (Suc j')
    then have "j' < length vs" using Cons.prems(2) by simp
    from Cons.IH[OF xs' this] show ?thesis using Suc eq by simp
  qed
qed



lemma parse_records_Inr:
  "parse_records cast names rows = Inr recs \<Longrightarrow>
   length recs = length rows \<and>
   (\<forall>k<length rows. length (rows ! k) = length names \<and>
      (\<exists>vals. cast_fields cast (data_column names) 0 (rows ! k) = Inr vals \<and>
              recs ! k = AList.updates names vals []))"
proof (induction rows arbitrary: recs)
  case Nil
  then show ?case by simp
next
  case (Cons row rows)
  from Cons.prems obtain vals recs' where
    vals: "cast_fields cast (data_column names) 0 row = Inr vals"
    and len: "length vals = length names"
    and rest: "parse_records cast names rows = Inr recs'"
    and eq: "recs = AList.updates names vals [] # recs'"
    by (auto split: sum.splits if_splits)
  from Cons.IH[OF rest] have ih: "length recs' = length rows"
    "\<forall>k<length rows. length (rows ! k) = length names \<and>
      (\<exists>vals. cast_fields cast (data_column names) 0 (rows ! k) = Inr vals \<and>
              recs' ! k = AList.updates names vals [])" by simp_all
  have l0: "length row = length names" using cast_fields_Inr_length[OF vals] len by simp
  show ?case
  proof (intro conjI allI impI)
    show "length recs = length (row # rows)" using ih(1) eq by simp
  next
    fix k assume "k < length (row # rows)"
    then show "length ((row # rows) ! k) = length names"
      using l0 ih(2) by (cases k) auto
  next
    fix k assume k: "k < length (row # rows)"
    show "\<exists>vals. cast_fields cast (data_column names) 0 ((row # rows) ! k) = Inr vals \<and>
              recs ! k = AList.updates names vals []"
    proof (cases k)
      case 0
      then show ?thesis using vals eq by simp
    next
      case (Suc k')
      then show ?thesis using k ih(2) eq by simp
    qed
  qed
qed



lemma column_names_Str: "column_names (map (\<lambda>v. Str (f v)) h) = Inr (map f h)"
  by (induction h) auto

lemma header_generic:
  "cast_fields (cast_generic N C) ColIndex i h = Inr (map (\<lambda>v. Str (trim v)) h)"
  by (induction h arbitrary: i) (auto simp: cast_generic_def)

lemma header_events: "cast_fields cast_events ColIndex i h = Inr (map (\<lambda>v. Str (id v)) h)"
  by (induction h arbitrary: i) (auto simp: cast_events_def)

lemma parse_rows_generic:
  "parse_rows (cast_generic N C) (h # data) = parse_records (cast_generic N C) (map trim h) data"
  by (simp add: parse_rows_def header_generic column_names_Str)

lemma parse_rows_events:
  "parse_rows cast_events (h # data) = parse_records cast_events h data"
  using column_names_Str[of id h] by (simp add: parse_rows_def header_events)

subsection \<open>The callback of the generic parser and the properties of a record\<close>


lemma cast_generic_bad:
  "c \<in> set N \<or> c \<in> set C \<Longrightarrow> isNaN (parseFloat v) \<Longrightarrow>
   cast_generic N C v (ColName c) = Inl (Error (invalid_numeric_message v c))"
  by (simp add: cast_generic_def)

lemma cast_generic_ColName:
  "\<not> (isNaN (parseFloat v) \<and> (c \<in> set N \<or> c \<in> set C)) \<Longrightarrow>
   cast_generic N C v (ColName c) =
     Inr (if c \<in> set N \<or> c \<in> set C then Num (parseFloat v) else Str (trim v))"
  by (auto simp: cast_generic_def Let_def)


lemma map_upds_last_occurrence:
  "length ks = length vs \<Longrightarrow> i < length ks \<Longrightarrow>
   (\<And>j. i < j \<Longrightarrow> j < length ks \<Longrightarrow> ks ! j \<noteq> ks ! i) \<Longrightarrow>
   (m(ks [\<mapsto>] vs)) (ks ! i) = Some (vs ! i)"
proof (induction ks arbitrary: vs i m)
  case Nil
  then show ?case by simp
next
  case (Cons k ks)
  then obtain v vs' where vs: "vs = v # vs'" by (cases vs) auto
  show ?case
  proof (cases i)
    case 0
    have "k \<notin> set ks"
    proof
      assume "k \<in> set ks"
      then obtain j where "j < length ks" "ks ! j = k" by (auto simp: in_set_conv_nth)
      then show False using Cons.prems(3)[of "Suc j"] 0 by simp
    qed
    then show ?thesis using 0 vs by simp
  next
    case (Suc i')
    have "(m(k \<mapsto> v, ks [\<mapsto>] vs')) (ks ! i') = Some (vs' ! i')"
    proof (rule Cons.IH)
      show "length ks = length vs'" using Cons.prems(1) vs by simp
      show "i' < length ks" using Cons.prems(2) Suc by simp
      fix j assume "i' < j" "j < length ks"
      then show "ks ! j \<noteq> ks ! i'" using Cons.prems(3)[of "Suc j"] Suc by simp
    qed
    then show ?thesis using Suc vs by simp
  qed
qed

lemma get_prop_updates:
  assumes "length names = length vals" "i < length names"
    and "\<And>j. i < j \<Longrightarrow> j < length names \<Longrightarrow> names ! j \<noteq> names ! i"
  shows "get_prop (AList.updates names vals []) (names ! i) = vals ! i"
  using map_upds_last_occurrence[OF assms, of Map.empty]
  by (simp add: get_prop_def updates_conv')

lemma parseCSVWithCoordinates_Inr:
  "parseCSVWithCoordinates lx content N C = Inr (records, warnings) \<longleftrightarrow>
   parse lx (cast_generic N C) content = Inr records \<and>
   warnings = concat (map (coordinate_warning C) records)"
  by (auto simp: parseCSVWithCoordinates_def split: sum.splits)

lemma parse_Inr:
  "parse lx cast content = Inr recs \<Longrightarrow> parse_rows cast (fst (lx content)) = Inr recs"
  by (auto simp: parse_def split: prod.splits sum.splits option.splits)

subsection \<open>Sums of whole figures and the two filters of the endpoint\<close>

lemma js_add_whole:
  assumes "0 \<le> a" "of_int \<lfloor>a\<rfloor> = a" "0 \<le> b" "of_int \<lfloor>b\<rfloor> = b" "a + b < 2 ^ 53"
  shows "js_add (Fin a) (Fin b) = Fin (a + b)"
proof -
  have eq: "a + b = of_int (\<lfloor>a\<rfloor> + \<lfloor>b\<rfloor>)" by (simp only: of_int_add assms(2,4))
  have "real_of_int (\<lfloor>a\<rfloor> + \<lfloor>b\<rfloor>) < 2 ^ 53" using assms(5) eq by simp
  then have "\<lfloor>a\<rfloor> + \<lfloor>b\<rfloor> < 2 ^ 53" by (metis of_int_less_numeral_power_cancel_iff)
  moreover have "0 \<le> \<lfloor>a\<rfloor> + \<lfloor>b\<rfloor>" using assms(1,3) by simp
  ultimately have "\<bar>\<lfloor>a\<rfloor> + \<lfloor>b\<rfloor>\<bar> < 2 ^ 53" by simp
  from round_double_int[OF this] show ?thesis using eq by simp
qed

lemma whole_numberE:
  assumes "whole_number x"
  obtains r where "x = Fin r" "0 \<le> r" "of_int \<lfloor>r\<rfloor> = r"
  using assms by (cases x) (auto simp: whole_number_def)

lemma foldl_js_add_exact:
  "list_all (\<lambda>r. whole_number (figure r)) rs \<Longrightarrow> 0 \<le> a \<Longrightarrow> of_int \<lfloor>a\<rfloor> = a \<Longrightarrow>
   a + sum_list (map (\<lambda>r. value_of (figure r)) rs) < 2 ^ 53 \<Longrightarrow>
   foldl (\<lambda>sum record. js_add sum (figure record)) (Fin a) rs =
     Fin (a + sum_list (map (\<lambda>r. value_of (figure r)) rs))"
proof (induction rs arbitrary: a)
  case Nil
  then show ?case by simp
next
  case (Cons r rs)
  from Cons.prems(1) have wr: "whole_number (figure r)"
    and wrs: "list_all (\<lambda>r. whole_number (figure r)) rs" by simp_all
  from wr obtain b where b: "figure r = Fin b" "0 \<le> b" "of_int \<lfloor>b\<rfloor> = b"
    by (rule whole_numberE)
  have nonneg: "0 \<le> sum_list (map (\<lambda>r. value_of (figure r)) rs)"
  proof (rule sum_list_nonneg)
    fix x assume "x \<in> set (map (\<lambda>r. value_of (figure r)) rs)"
    then obtain r' where "r' \<in> set rs" "x = value_of (figure r')" by auto
    moreover from this wrs have "whole_number (figure r')" by (simp add: list_all_iff)
    ultimately show "0 \<le> x" by (auto elim!: whole_numberE simp: value_of_def)
  qed
  have tot: "a + b + sum_list (map (\<lambda>r. value_of (figure r)) rs) < 2 ^ 53"
    using Cons.prems(4) b(1) by (simp add: value_of_def)
  have step: "js_add (Fin a) (Fin b) = Fin (a + b)"
    using Cons.prems(2,3) b(2,3) tot nonneg by (intro js_add_whole) simp_all
  have whole_ab: "of_int \<lfloor>a + b\<rfloor> = a + b"
  proof -
    have "a + b = of_int (\<lfloor>a\<rfloor> + \<lfloor>b\<rfloor>)" by (simp only: of_int_add Cons.prems(3) b(3))
    then show ?thesis by (metis floor_of_int)
  qed
  have "foldl (\<lambda>sum record. js_add sum (figure record)) (Fin (a + b)) rs =
     Fin (a + b + sum_list (map (\<lambda>r. value_of (figure r)) rs))"
    using wrs Cons.prems(2) b(2) whole_ab tot by (intro Cons.IH) simp_all
  then show ?case using step b(1) by (simp add: value_of_def add.assoc)
qed

lemma sum_figures_exact:
  "exact_total rs \<Longrightarrow> sum_figures rs = Fin (sum_list (map (\<lambda>r. value_of (figure r)) rs))"
  using foldl_js_add_exact[of rs 0] by (simp add: exact_total_def sum_figures_def)

lemma value_of_figure_nonneg: "whole_number (figure r) \<Longrightarrow> 0 \<le> value_of (figure r)"
  by (auto elim!: whole_numberE simp: value_of_def)

lemma sum_list_filter_split:
  "sum_list (map f (filter P xs)) + sum_list (map f (filter (\<lambda>x. \<not> P x) xs)) =
   (sum_list (map f xs) :: real)"
  by (induction xs) auto

lemma sum_list_filter_le:
  "list_all (\<lambda>r. whole_number (figure r)) rs \<Longrightarrow>
   sum_list (map (\<lambda>r. value_of (figure r)) (filter P rs)) \<le>
   sum_list (map (\<lambda>r. value_of (figure r)) rs)"
  by (induction rs) (auto dest: value_of_figure_nonneg)

lemma exact_total_filter: "exact_total rs \<Longrightarrow> exact_total (filter P rs)"
  using sum_list_filter_le[of rs P]
  by (auto simp: exact_total_def list_all_iff)

lemma whole_sum_list:
  "list_all (\<lambda>r. whole_number (figure r)) rs \<Longrightarrow>
   0 \<le> sum_list (map (\<lambda>r. value_of (figure r)) rs) \<and>
   of_int \<lfloor>sum_list (map (\<lambda>r. value_of (figure r)) rs)\<rfloor> =
     sum_list (map (\<lambda>r. value_of (figure r)) rs)"
proof (induction rs)
  case Nil
  then show ?case by simp
next
  case (Cons r rs)
  then obtain b where b: "figure r = Fin b" "0 \<le> b" "of_int \<lfloor>b\<rfloor> = b"
    by (auto elim!: whole_numberE)
  from Cons have ih: "0 \<le> sum_list (map (\<lambda>r. value_of (figure r)) rs)"
    "of_int \<lfloor>sum_list (map (\<lambda>r. value_of (figure r)) rs)\<rfloor> =
     sum_list (map (\<lambda>r. value_of (figure r)) rs)" by simp_all
  have "b + sum_list (map (\<lambda>r. value_of (figure r)) rs) =
     of_int (\<lfloor>b\<rfloor> + \<lfloor>sum_list (map (\<lambda>r. value_of (figure r)) rs)\<rfloor>)"
    by (simp only: of_int_add b(3) ih(2))
  then have "of_int \<lfloor>b + sum_list (map (\<lambda>r. value_of (figure r)) rs)\<rfloor> =
     b + sum_list (map (\<lambda>r. value_of (figure r)) rs)"
    by (metis floor_of_int)
  then show ?case using b ih by (simp add: value_of_def)
qed

lemma filter_throwing_Inr:
  "filter_throwing p xs = Inr ys \<Longrightarrow>
   (\<forall>x\<in>set xs. \<exists>b. p x = Inr b) \<and> ys = filter (\<lambda>x. p x = Inr True) xs"
proof (induction xs arbitrary: ys)
  case Nil
  then show ?case by simp
next
  case (Cons x xs)
  from Cons.prems obtain b ys' where b: "p x = Inr b"
    and ys': "filter_throwing p xs = Inr ys'" and eq: "ys = (if b then x # ys' else ys')"
    by (auto split: sum.splits)
  from Cons.IH[OF ys'] show ?case using b eq by auto
qed

lemma filter_throwing_total:
  "(\<forall>x\<in>set xs. \<exists>b. p x = Inr b) \<Longrightarrow> \<exists>ys. filter_throwing p xs = Inr ys"
  by (induction xs) auto

lemma is_gaza_Inr: "is_gaza r = Inr b \<Longrightarrow> b = names_gaza r"
  by (auto simp: is_gaza_def names_gaza_def split: jsval.splits)

lemma is_not_gaza_Inr: "is_not_gaza r = Inr b \<longleftrightarrow> is_gaza r = Inr (\<not> b)"
  by (auto simp: is_not_gaza_def split: sum.splits)

lemma events_payload_Inr:
  assumes "events_payload records = Inr p"
  shows "gaza_events p = filter names_gaza (validRecords records)"
    and "west_bank_events p = filter (\<lambda>r. \<not> names_gaza r) (validRecords records)"
    and "summary p =
           \<lparr>total_events = length (validRecords records),
            total_displaced = sum_figures (validRecords records),
            gaza_displaced = sum_figures (gaza_events p),
            west_bank_displaced = sum_figures (west_bank_events p),
            gaza_events_count = length (gaza_events p),
            west_bank_events_count = length (west_bank_events p),
            largest_displacement = Math_max (map figure (validRecords records))\<rparr>"
    and "bounds p = events_bounds (validRecords records)"
proof -
  let ?valid = "validRecords records"
  from assms obtain g w where g: "filter_throwing is_gaza ?valid = Inr g"
    and w: "filter_throwing is_not_gaza ?valid = Inr w"
    and p: "p = \<lparr>gaza_events = g, west_bank_events = w,
                  summary =
                    \<lparr>total_events = length ?valid,
                     total_displaced = sum_figures ?valid,
                     gaza_displaced = sum_figures g,
                     west_bank_displaced = sum_figures w,
                     gaza_events_count = length g,
                     west_bank_events_count = length w,
                     largest_displacement = Math_max (map figure ?valid)\<rparr>,
                  bounds = events_bounds ?valid\<rparr>"
    by (auto simp: events_payload_def Let_def split: sum.splits)
  from filter_throwing_Inr[OF g] have gb: "\<forall>x\<in>set ?valid. \<exists>b. is_gaza x = Inr b"
    and g': "g = filter (\<lambda>x. is_gaza x = Inr True) ?valid" by simp_all
  from filter_throwing_Inr[OF w] have w': "w = filter (\<lambda>x. is_not_gaza x = Inr True) ?valid"
    by simp
  have eqv: "is_gaza x = Inr (names_gaza x)" if "x \<in> set ?valid" for x
  proof -
    from gb that obtain b where "is_gaza x = Inr b" by blast
    then show ?thesis using is_gaza_Inr[of x b] by simp
  qed
  have "g = filter names_gaza ?valid"
    unfolding g' by (intro filter_cong refl) (simp add: eqv)
  moreover have "w = filter (\<lambda>r. \<not> names_gaza r) ?valid"
    unfolding w' by (intro filter_cong refl) (simp add: is_not_gaza_Inr eqv)
  ultimately show "gaza_events p = filter names_gaza (validRecords records)"
    and "west_bank_events p = filter (\<lambda>r. \<not> names_gaza r) (validRecords records)"
    and "summary p =
           \<lparr>total_events = length (validRecords records),
            total_displaced = sum_figures (validRecords records),
            gaza_displaced = sum_figures (gaza_events p),
            west_bank_displaced = sum_figures (west_bank_events p),
            gaza_events_count = length (gaza_events p),
            west_bank_events_count = length (west_bank_events p),
            largest_displacement = Math_max (map figure (validRecords records))\<rparr>"
    and "bounds p = events_bounds (validRecords records)"
    using p by simp_all
qed

lemma GET_body_Inr:
  "GET_body lx fs = Inr p \<Longrightarrow>
   \<exists>content records. fs ''data/event_data_pse.csv'' = Inr content \<and>
      parse_events lx content = Inr records \<and> events_payload records = Inr p"
  by (auto simp: GET_body_def split: sum.splits)

subsection \<open>Cells of parsed records and the callback of the endpoint\<close>

lemma parse_records_cells:
  assumes pr: "parse_records cast names rows = Inr records"
    and k: "k < length rows" and i: "i < length names"
    and last: "\<And>j. i < j \<Longrightarrow> j < length names \<Longrightarrow> names ! j \<noteq> names ! i"
  shows "i < length (rows ! k) \<and>
         cast (rows ! k ! i) (ColName (names ! i)) = Inr (get_prop (records ! k) (names ! i))"
proof -
  from parse_records_Inr[OF pr] k obtain vals where
    len: "length (rows ! k) = length names"
    and vals: "cast_fields cast (data_column names) 0 (rows ! k) = Inr vals"
    and rec: "records ! k = AList.updates names vals []"
    by blast
  have ik: "i < length (rows ! k)" using len i by simp
  have lv: "length names = length vals" using cast_fields_Inr_length[OF vals] len by simp
  have cell: "cast (rows ! k ! i) (ColName (names ! i)) = Inr (vals ! i)"
    using cast_fields_Inr_nth[OF vals ik] i by (simp add: data_column_def)
  have "get_prop (AList.updates names vals []) (names ! i) = vals ! i"
    using lv i last by (rule get_prop_updates)
  then show ?thesis using ik cell rec by simp
qed

lemma map_upds_Some:
  "(m(ks [\<mapsto>] vs)) c = Some v \<Longrightarrow>
   m c = Some v \<or> (\<exists>j. j < length ks \<and> j < length vs \<and> ks ! j = c \<and> vs ! j = v)"
proof (induction ks arbitrary: vs m)
  case Nil
  then show ?case by simp
next
  case (Cons k ks)
  show ?case
  proof (cases vs)
    case Nil
    with Cons.prems show ?thesis by simp
  next
    case (Cons v' vs')
    with Cons.prems have "((m(k \<mapsto> v'))(ks [\<mapsto>] vs')) c = Some v" by simp
    from Cons.IH[OF this] show ?thesis
    proof
      assume "(m(k \<mapsto> v')) c = Some v"
      then have "m c = Some v \<or> (k = c \<and> v' = v)" by (auto split: if_splits)
      then show ?thesis
      proof
        assume "m c = Some v" then show ?thesis by simp
      next
        assume "k = c \<and> v' = v"
        then have "0 < length (k # ks) \<and> 0 < length vs \<and> (k # ks) ! 0 = c \<and> vs ! 0 = v"
          using Cons by simp
        then show ?thesis by blast
      qed
    next
      assume "\<exists>j. j < length ks \<and> j < length vs' \<and> ks ! j = c \<and> vs' ! j = v"
      then obtain j where "j < length ks" "j < length vs'" "ks ! j = c" "vs' ! j = v" by blast
      then have "Suc j < length (k # ks) \<and> Suc j < length vs \<and> (k # ks) ! Suc j = c \<and> vs ! Suc j = v"
        using Cons by simp
      then show ?thesis by blast
    qed
  qed
qed

lemma parse_records_props:
  assumes pr: "parse_records cast names rows = Inr records"
    and r: "r \<in> set records" and c: "map_of r c = Some v"
  shows "\<exists>row\<in>set rows. \<exists>j<length row. cast (row ! j) (ColName c) = Inr v"
proof -
  from r obtain k where k: "k < length records" "records ! k = r"
    by (auto simp: in_set_conv_nth)
  note P = parse_records_Inr[OF pr]
  from P k have kr: "k < length rows" by simp
  with P obtain vals where
    len: "length (rows ! k) = length names"
    and vals: "cast_fields cast (data_column names) 0 (rows ! k) = Inr vals"
    and rec: "records ! k = AList.updates names vals []"
    by blast
  from c rec k(2) have "(Map.empty(names [\<mapsto>] vals)) c = Some v"
    by (simp add: updates_conv')
  from map_upds_Some[OF this] obtain j where
    j: "j < length names" "j < length vals" "names ! j = c" "vals ! j = v" by auto
  have jl: "j < length (rows ! k)" using j(1) len by simp
  from cast_fields_Inr_nth[OF vals jl] j have "cast (rows ! k ! j) (ColName c) = Inr v"
    by (simp add: data_column_def)
  with kr jl show ?thesis by (metis nth_mem)
qed

lemma last_occurrence:
  "c \<in> set names \<Longrightarrow>
   \<exists>i<length names. names ! i = c \<and> (\<forall>j. i < j \<and> j < length names \<longrightarrow> names ! j \<noteq> c)"
proof -
  assume "c \<in> set names"
  then obtain ys zs where sp: "names = ys @ c # zs" "c \<notin> set zs"
    by (meson split_list_last)
  have "\<forall>j. length ys < j \<and> j < length names \<longrightarrow> names ! j \<noteq> c"
  proof (intro allI impI)
    fix j assume j: "length ys < j \<and> j < length names"
    then have "names ! j = zs ! (j - Suc (length ys))"
      using sp(1) by (simp add: nth_append nth_Cons')
    moreover have "j - Suc (length ys) < length zs" using j sp(1) by auto
    ultimately show "names ! j \<noteq> c" using sp(2) by (metis nth_mem)
  qed
  moreover have "length ys < length names" "names ! length ys = c" using sp(1) by simp_all
  ultimately show ?thesis by blast
qed

lemma cast_events_ColName:
  "cast_events v (ColName c) =
     Inr (if c \<in> {''latitude'', ''longitude'', ''figure'', ''year''}
          then Num (if isNaN (parseFloat v) then Fin 0 else parseFloat v) else Str v)"
  by (simp add: cast_events_def Let_def)

lemma cast_events_total: "\<exists>x. cast_events v col = Inr x"
  by (cases col) (simp_all add: cast_events_def Let_def)

lemma cast_fields_total:
  "\<forall>v c. \<exists>x. cast v c = Inr x \<Longrightarrow> \<exists>xs. cast_fields cast col i vs = Inr xs"
proof (induction vs arbitrary: i)
  case Nil
  then show ?case by simp
next
  case (Cons v vs)
  from Cons.prems obtain x where "cast v (col i) = Inr x" by blast
  moreover from Cons.IH[OF Cons.prems] obtain xs where "cast_fields cast col (Suc i) vs = Inr xs"
    by blast
  ultimately show ?case by simp
qed

lemma parse_records_total:
  "\<forall>v c. \<exists>x. cast v c = Inr x \<Longrightarrow> \<forall>r\<in>set rows. length r = length names \<Longrightarrow>
   \<exists>records. parse_records cast names rows = Inr records"
proof (induction rows)
  case Nil
  then show ?case by simp
next
  case (Cons row rows)
  from cast_fields_total[OF Cons.prems(1)] obtain vals where
    vals: "cast_fields cast (data_column names) 0 row = Inr vals" by blast
  have "length vals = length names"
    using cast_fields_Inr_length[OF vals] Cons.prems(2) by simp
  moreover from Cons.IH[OF Cons.prems(1)] Cons.prems(2) obtain recs where
    "parse_records cast names rows = Inr recs" by auto
  ultimately show ?case using vals by simp
qed

lemma parse_events_Inr:
  "parse_events lx content = Inr records \<Longrightarrow> lx (cleanedCSV content) = (header # rows, trailing) \<Longrightarrow>
   parse_records cast_events header rows = Inr records"
  using parse_Inr[of lx cast_events "cleanedCSV content" records]
  by (simp add: parse_events_def parse_rows_events)

lemma parse_events_typed:
  assumes "parse_events lx content = Inr records" "r \<in> set records"
  shows "get_prop r ''figure'' = Undefined \<or> (\<exists>n. get_prop r ''figure'' = Num n \<and> \<not> isNaN n)"
proof (cases "map_of r ''figure''")
  case None
  then show ?thesis by (simp add: get_prop_def)
next
  case (Some v)
  obtain rows trailing where lx: "lx (cleanedCSV content) = (rows, trailing)"
    by (cases "lx (cleanedCSV content)")
  show ?thesis
  proof (cases rows)
    case Nil
    with assms lx show ?thesis
      by (auto simp: parse_events_def parse_def parse_rows_def split: option.splits)
  next
    case (Cons header data)
    from parse_events_Inr[OF assms(1)] lx Cons
    have "parse_records cast_events header data = Inr records" by simp
    from parse_records_props[OF this assms(2) Some] obtain row j where
      "cast_events (row ! j) (ColName ''figure'') = Inr v" by blast
    then have "\<exists>n. v = Num n \<and> \<not> isNaN n"
      by (auto simp: cast_events_ColName isNaN_def)
    then show ?thesis using Some by (auto simp: get_prop_def)
  qed
qed

lemma foldl_map_figure:
  "foldl (\<lambda>sum record. js_add sum (figure record)) a rs = foldl js_add a (map figure rs)"
  by (induction rs arbitrary: a) simp_all

subsection \<open>Loaders\<close>

lemma load_generic_Inl:
  "fst (load_generic lx fs path cols dataset) = Inl e \<Longrightarrow>
   e = Error (''Failed to load '' @ dataset @ '' data'')"
  by (auto simp: load_generic_def split: sum.splits prod.splits)

lemma load_generic_unreadable:
  "fs path = Inl e \<Longrightarrow>
   fst (load_generic lx fs path cols dataset) = Inl (Error (''Failed to load '' @ dataset @ '' data''))"
  by (simp add: load_generic_def)

lemma load_generic_parser_failure:
  "fs path = Inr content \<Longrightarrow>
   parseCSVWithCoordinates lx content cols [''latitude'', ''longitude''] = Inl e \<Longrightarrow>
   fst (load_generic lx fs path cols dataset) = Inl (Error (''Failed to load '' @ dataset @ '' data''))"
  by (simp add: load_generic_def)

lemma casualties_message: "''Failed to load '' @ ''casualties'' @ '' data'' = ''Failed to load casualties data''"
  by simp

lemma infrastructure_message:
  "''Failed to load '' @ ''infrastructure'' @ '' data'' = ''Failed to load infrastructure data''"
  by simp

lemma displacement_message:
  "''Failed to load '' @ ''displacement'' @ '' data'' = ''Failed to load displacement data''"
  by simp

subsection \<open>Success of the endpoint\<close>

lemma parse_events_succeeds:
  assumes lx: "lx (cleanedCSV content) = (header # rows, None)"
    and wf: "\<forall>r\<in>set rows. length r = length header"
  shows "\<exists>records. parse_events lx content = Inr records \<and>
                   parse_records cast_events header rows = Inr records"
proof -
  have "\<forall>v c. \<exists>x. cast_events v c = Inr x" using cast_events_total by blast
  from parse_records_total[OF this wf] obtain records where
    r: "parse_records cast_events header rows = Inr records" by blast
  then have "parse_events lx content = Inr records"
    by (simp add: parse_events_def parse_def lx parse_rows_events)
  with r show ?thesis by blast
qed

lemma events_payload_succeeds:
  assumes "\<forall>r\<in>set (validRecords records). \<exists>s. get_prop r ''locations_name'' = Str s"
  shows "\<exists>p. events_payload records = Inr p"
proof -
  have g: "\<forall>r\<in>set (validRecords records). \<exists>b. is_gaza r = Inr b"
    using assms by (auto simp: is_gaza_def)
  then have w: "\<forall>r\<in>set (validRecords records). \<exists>b. is_not_gaza r = Inr b"
    by (auto simp: is_not_gaza_def)
  from filter_throwing_total[OF g] obtain gs where
    "filter_throwing is_gaza (validRecords records) = Inr gs" by blast
  moreover from filter_throwing_total[OF w] obtain ws where
    "filter_throwing is_not_gaza (validRecords records) = Inr ws" by blast
  ultimately show ?thesis by (simp add: events_payload_def Let_def)
qed

subsection \<open>Evaluations of the examples\<close>

text \<open>
  The examples are evaluated once, by rewriting with the equations of the definitions.
\<close>

lemma events_demo_lexed:
  "simple_lex (cleanedCSV events_demo) =
   ([''country'', ''latitude'', ''longitude'', ''figure'', ''displacement_date'', ''locations_name''] #
    [[''Palestine'', ''31.5'', ''34.5'', ''100'', ''2023-10-07'', ''Gaza City Shelter''],
     [''Palestine'', ''31'', ''35'', ''250'', ''2023-10-08'', ''Ramallah Center''],
     [''Palestine'', ''31'', ''34'', ''n/a'', ''2023-10-09'', ''Gaza''],
     [''Israel'', ''31'', ''34'', ''50'', ''2023-10-10'', ''Gaza'']],
    None)"
  by code_simp

lemma events_demo_parsed: "parse_events simple_lex events_demo = Inr events_demo_records"
  by code_simp

lemma events_demo_payload_eq: "events_payload events_demo_records = Inr events_demo_payload"
  by code_simp

lemma events_demo_body:
  "GET_body simple_lex (single_file ''data/event_data_pse.csv'' events_demo) = Inr events_demo_payload"
  by (simp add: GET_body_def single_file_def events_demo_parsed events_demo_payload_eq)

lemma events_demo_valid: "validRecords events_demo_records = [gaza_shelter, ramallah_center]"
  by code_simp

lemma events_demo_exact: "exact_total [gaza_shelter, ramallah_center]"
  by code_simp

lemma three_rows_parsed:
  "parse_events simple_lex three_rows_demo =
   Inr [[(''id'', Str ''1''), (''event_name'', Str ''a'')],
        [(''id'', Str ''2''), (''event_name'', Str ''b'')],
        [(''id'', Str ''3''), (''event_name'', Str ''c'')]]"
  by code_simp

lemma three_rows_lines:
  "split_on (CHR 0x0A) three_rows_demo = [''id,event_name'', ''#id,#name'', ''1,a'', ''2,b'', ''3,c'']"
  by code_simp

lemma large_figures_body:
  "GET_body simple_lex (single_file ''data/event_data_pse.csv'' large_figures_demo) =
   Inr \<lparr>gaza_events =
          [[(''country'', Str ''Palestine''), (''latitude'', Num (Fin 31)),
            (''longitude'', Num (Fin 34)), (''figure'', Num (Fin 10000000000000000)),
            (''displacement_date'', Str ''2023-10-07''),
            (''locations_name'', Str ''Gaza'')]],
        west_bank_events =
          [[(''country'', Str ''Palestine''), (''latitude'', Num (Fin 31)),
            (''longitude'', Num (Fin 35)), (''figure'', Num (Fin 1)),
            (''displacement_date'', Str ''2023-10-08''),
            (''locations_name'', Str ''Hebron'')],
           [(''country'', Str ''Palestine''), (''latitude'', Num (Fin 31)),
            (''longitude'', Num (Fin 35)), (''figure'', Num (Fin 1)),
            (''displacement_date'', Str ''2023-10-09''),
            (''locations_name'', Str ''Jenin'')]],
        summary =
          \<lparr>total_events = 3, total_displaced = Fin 10000000000000000,
           gaza_displaced = Fin 10000000000000000, west_bank_displaced = Fin 2,
           gaza_events_count = 1, west_bank_events_count = 2,
           largest_displacement = Fin 10000000000000000\<rparr>,
        bounds = \<lparr>north = Fin 31, south = Fin 31, east = Fin 35, west = Fin 34\<rparr>\<rparr>"
  by code_simp

lemma large_figures_sum: "js_add (Fin 10000000000000000) (Fin 2) = Fin 10000000000000002"
  by code_simp

lemma no_rows_response:
  "GET simple_lex (single_file ''data/event_data_pse.csv'' no_rows_demo) =
   (Response 200 (Success no_rows_payload), [])"
  by code_simp

lemma places_lexed:
  "simple_lex places_demo =
   ([''latitude'', ''longitude'', ''location'', ''area''] #
    [[''31.5'', ''34.5'', '' Gaza City '', ''north''], [''40'', ''34'', ''Far Away'', ''south'']],
    None)"
  by code_simp

lemma places_parsed:
  "parse simple_lex (cast_generic [''latitude'', ''longitude''] [''latitude'', ''longitude''])
     places_demo = Inr places_demo_records"
  by code_simp

lemma places_warnings:
  "concat (map (coordinate_warning [''latitude'', ''longitude'']) places_demo_records) =
     [WarnInvalidCoordinates (Str ''Far Away'') (Num (Fin 40)) (Num (Fin 34))]"
  by code_simp

lemma places_header_trimmed:
  "map trim [''latitude'', ''longitude'', ''location'', ''area''] =
     [''latitude'', ''longitude'', ''location'', ''area'']"
  by code_simp

lemma far_away_outside: "\<not> validateCoordinates (Fin 40) (Fin 34)"
  by code_simp


lemma bad_places_casualties:
  "parseCSVWithCoordinates simple_lex bad_places_demo
     [''killed'', ''injured'', ''children_killed'', ''women_killed'', ''latitude'', ''longitude'']
     [''latitude'', ''longitude''] =
   Inl (Error (invalid_numeric_message ''abc'' ''latitude''))"
  by code_simp





lemma parseFloat_n_a: "isNaN (parseFloat ''n/a'')"
  by code_simp

lemma unique_locations_collide:
  "getUniqueLocations [khan_younis_north, khan_younis] =
     [\<lparr>latitude = Fin 31, longitude = Fin 34, location = ''Khan Younis-North'', area = ''Gaza''\<rparr>]"
  by code_simp

lemma default_box:
  "calculateBounds ([] :: GeographicData list) =
     \<lparr>north = Fin (4447304632028365 / 140737488355328),
      south = Fin (8782019273372467 / 281474976710656),
      east = Fin (69 / 2),
      west = Fin (2406611050876109 / 70368744177664)\<rparr>"
  by code_simp

lemma distinct_last:
  "distinct names \<Longrightarrow> i < length names \<Longrightarrow>
   \<forall>j. i < j \<and> j < length names \<longrightarrow> names ! j \<noteq> names ! i"
  by (auto simp: nth_eq_iff_index_eq)

lemma distinct_map_last:
  "distinct (map f names) \<Longrightarrow> i < length names \<Longrightarrow>
   \<forall>j. i < j \<and> j < length names \<longrightarrow> f (names ! j) \<noteq> f (names ! i)"
  using distinct_last[of "map f names" i] by simp

section \<open>The claims\<close>




text \<open>
  \<^bold>\<open>C2.\<close> When \<open>parseCSVWithCoordinates\<close> succeeds, there is one record for each data
  record of the text, in order, and the property of a record under a column name (the
  trimmed header field; of two columns with one name the last gives the property) is the
  number \<open>parseFloat\<close> reads from the raw field when the column is declared numeric or is
  a coordinate column, a number that is not \<open>NaN\<close>, and the trimmed raw field otherwise.
\<close>

theorem parsed_fields_are_cast_cells:
  assumes ok: "parseCSVWithCoordinates lx content numericColumns coordinateColumns = Inr (records, warnings)"
    and lx: "lx content = (header # rows, trailing)"
  shows "length records = length rows \<and>
         (\<forall>k<length rows. \<forall>i<length header.
            (\<forall>j. i < j \<and> j < length header \<longrightarrow> trim (header ! j) \<noteq> trim (header ! i)) \<longrightarrow>
            i < length (rows ! k) \<and>
            get_prop (records ! k) (trim (header ! i)) =
              (if trim (header ! i) \<in> set numericColumns \<or> trim (header ! i) \<in> set coordinateColumns
               then Num (parseFloat (rows ! k ! i)) else Str (trim (rows ! k ! i))) \<and>
            (trim (header ! i) \<in> set numericColumns \<or> trim (header ! i) \<in> set coordinateColumns
               \<longrightarrow> \<not> isNaN (parseFloat (rows ! k ! i))))"
proof -
  let ?cast = "cast_generic numericColumns coordinateColumns"
  let ?names = "map trim header"
  from ok have "parse lx ?cast content = Inr records"
    by (simp add: parseCSVWithCoordinates_Inr)
  from parse_Inr[OF this] have pr: "parse_records ?cast ?names rows = Inr records"
    by (simp add: lx parse_rows_generic)
  note P = parse_records_Inr[OF pr]
  have "\<forall>k<length rows. \<forall>i<length header.
            (\<forall>j. i < j \<and> j < length header \<longrightarrow> trim (header ! j) \<noteq> trim (header ! i)) \<longrightarrow>
            i < length (rows ! k) \<and>
            get_prop (records ! k) (trim (header ! i)) =
              (if trim (header ! i) \<in> set numericColumns \<or> trim (header ! i) \<in> set coordinateColumns
               then Num (parseFloat (rows ! k ! i)) else Str (trim (rows ! k ! i))) \<and>
            (trim (header ! i) \<in> set numericColumns \<or> trim (header ! i) \<in> set coordinateColumns
               \<longrightarrow> \<not> isNaN (parseFloat (rows ! k ! i)))"
  proof (intro allI impI)
    fix k i
    assume k: "k < length rows" and i: "i < length header"
      and last: "\<forall>j. i < j \<and> j < length header \<longrightarrow> trim (header ! j) \<noteq> trim (header ! i)"
    from P k obtain vals where
      len: "length (rows ! k) = length ?names"
      and vals: "cast_fields ?cast (data_column ?names) 0 (rows ! k) = Inr vals"
      and rec: "records ! k = AList.updates ?names vals []"
      by blast
    have ik: "i < length (rows ! k)" using len i by simp
    have lv: "length ?names = length vals" using cast_fields_Inr_length[OF vals] len by simp
    have cell: "?cast (rows ! k ! i) (ColName (trim (header ! i))) = Inr (vals ! i)"
      using cast_fields_Inr_nth[OF vals ik] i by (simp add: data_column_def)
    have notbad: "\<not> (isNaN (parseFloat (rows ! k ! i)) \<and>
        (trim (header ! i) \<in> set numericColumns \<or> trim (header ! i) \<in> set coordinateColumns))"
      using cell cast_generic_bad[of "trim (header ! i)" numericColumns coordinateColumns "rows ! k ! i"]
      by auto
    have v: "vals ! i = (if trim (header ! i) \<in> set numericColumns \<or> trim (header ! i) \<in> set coordinateColumns
               then Num (parseFloat (rows ! k ! i)) else Str (trim (rows ! k ! i)))"
      using cell cast_generic_ColName[OF notbad] by simp
    have "get_prop (AList.updates ?names vals []) (?names ! i) = vals ! i"
    proof (rule get_prop_updates[OF lv])
      show "i < length ?names" using i by simp
      fix j assume "i < j" "j < length ?names"
      then show "?names ! j \<noteq> ?names ! i" using last i by simp
    qed
    then have g: "get_prop (records ! k) (trim (header ! i)) = vals ! i"
      using rec i by simp
    show "i < length (rows ! k) \<and>
            get_prop (records ! k) (trim (header ! i)) =
              (if trim (header ! i) \<in> set numericColumns \<or> trim (header ! i) \<in> set coordinateColumns
               then Num (parseFloat (rows ! k ! i)) else Str (trim (rows ! k ! i))) \<and>
            (trim (header ! i) \<in> set numericColumns \<or> trim (header ! i) \<in> set coordinateColumns
               \<longrightarrow> \<not> isNaN (parseFloat (rows ! k ! i)))"
      using ik g v notbad by auto
  qed
  with P show ?thesis by blast
qed

theorem parsed_fields_are_cast_cells_witness:
  "parseCSVWithCoordinates simple_lex places_demo
     [''latitude'', ''longitude''] [''latitude'', ''longitude''] =
     Inr (places_demo_records, [WarnInvalidCoordinates (Str ''Far Away'') (Num (Fin 40)) (Num (Fin 34))]) \<and>
   length places_demo_records = 2 \<and>
   get_prop (places_demo_records ! 0) ''latitude'' = Num (parseFloat ''31.5'') \<and>
   \<not> isNaN (parseFloat ''31.5'') \<and>
   get_prop (places_demo_records ! 0) ''location'' = Str (trim '' Gaza City '')"
proof -
  let ?h = "[''latitude'', ''longitude'', ''location'', ''area'']"
  let ?rows = "[[''31.5'', ''34.5'', '' Gaza City '', ''north''], [''40'', ''34'', ''Far Away'', ''south'']]"
  have ok: "parseCSVWithCoordinates simple_lex places_demo
     [''latitude'', ''longitude''] [''latitude'', ''longitude''] =
     Inr (places_demo_records, [WarnInvalidCoordinates (Str ''Far Away'') (Num (Fin 40)) (Num (Fin 34))])"
    by (simp add: parseCSVWithCoordinates_Inr places_parsed places_warnings)
  note T = parsed_fields_are_cast_cells[of simple_lex places_demo "[''latitude'', ''longitude'']"
      "[''latitude'', ''longitude'']" places_demo_records
      "[WarnInvalidCoordinates (Str ''Far Away'') (Num (Fin 40)) (Num (Fin 34))]" ?h ?rows None,
      OF ok places_lexed]
  have d: "distinct (map trim ?h)" unfolding places_header_trimmed by simp
  have tr: "trim ''latitude'' = ''latitude''" "trim ''location'' = ''location''"
    using places_header_trimmed by simp_all
  from T have len: "length places_demo_records = 2" by simp
  from T have c: "\<forall>k<length ?rows. \<forall>i<length ?h.
            (\<forall>j. i < j \<and> j < length ?h \<longrightarrow> trim (?h ! j) \<noteq> trim (?h ! i)) \<longrightarrow>
            i < length (?rows ! k) \<and>
            get_prop (places_demo_records ! k) (trim (?h ! i)) =
              (if trim (?h ! i) \<in> set [''latitude'', ''longitude''] \<or> trim (?h ! i) \<in> set [''latitude'', ''longitude'']
               then Num (parseFloat (?rows ! k ! i)) else Str (trim (?rows ! k ! i))) \<and>
            (trim (?h ! i) \<in> set [''latitude'', ''longitude''] \<or> trim (?h ! i) \<in> set [''latitude'', ''longitude'']
               \<longrightarrow> \<not> isNaN (parseFloat (?rows ! k ! i)))"
    by blast
  have k0: "(0::nat) < length ?rows" and i0: "(0::nat) < length ?h" and i2: "(2::nat) < length ?h"
    by simp_all
  have c0: "get_prop (places_demo_records ! 0) ''latitude'' = Num (parseFloat ''31.5'') \<and>
            \<not> isNaN (parseFloat ''31.5'')"
    using c[THEN spec, THEN mp, OF k0, THEN spec, THEN mp, OF i0, THEN mp, OF distinct_map_last[OF d i0]]
    by (simp add: tr)
  have c2: "get_prop (places_demo_records ! 0) ''location'' = Str (trim '' Gaza City '')"
    using c[THEN spec, THEN mp, OF k0, THEN spec, THEN mp, OF i2, THEN mp, OF distinct_map_last[OF d i2]]
    by (simp add: tr)
  from ok len c0 c2 show ?thesis by blast
qed

text \<open>
  \<^bold>\<open>C3.\<close> The claim asks for the default box when there is no record, in
  \<open>calculateBounds\<close> and in the endpoint. \<open>calculateBounds\<close> returns it (the four doubles
  next to 31.6, 31.2, 34.5 and 34.2). The endpoint computes its bounds in place without the
  case for the empty list: for a file with no data row it answers with status 200 and the
  bounds \<open>-Infinity\<close>, \<open>Infinity\<close>, \<open>-Infinity\<close>, \<open>Infinity\<close>.
\<close>

theorem events_bounds_without_records:
  "fst (GET simple_lex (single_file ''data/event_data_pse.csv'' no_rows_demo)) =
     Response 200 (Success no_rows_payload) \<and>
   bounds no_rows_payload = \<lparr>north = NInf, south = PInf, east = NInf, west = PInf\<rparr> \<and>
   calculateBounds ([] :: GeographicData list) =
     \<lparr>north = Fin (4447304632028365 / 140737488355328),
      south = Fin (8782019273372467 / 281474976710656),
      east = Fin (69 / 2),
      west = Fin (2406611050876109 / 70368744177664)\<rparr>"
  by (simp add: no_rows_response no_rows_payload_def default_box)

text \<open>
  \<^bold>\<open>C4.\<close> The claim asks that records with different pairs of location and area are never
  merged. The key of \<open>getUniqueLocations\<close> joins the two strings with a hyphen, so two
  different pairs can have one key: the records below differ in location and in area, have
  the same key, and come out as one entry with the coordinates of the first.
\<close>

theorem unique_locations_merge_distinct_pairs:
  "(location khan_younis_north, area khan_younis_north) \<noteq> (location khan_younis, area khan_younis) \<and>
   location_key khan_younis_north = location_key khan_younis \<and>
   getUniqueLocations [khan_younis_north, khan_younis] =
     [\<lparr>latitude = Fin 31, longitude = Fin 34, location = ''Khan Younis-North'', area = ''Gaza''\<rparr>]"
proof -
  have "location_key khan_younis_north = location_key khan_younis" by code_simp
  moreover have "(location khan_younis_north, area khan_younis_north) \<noteq> (location khan_younis, area khan_younis)"
    by (simp add: khan_younis_north_def khan_younis_def)
  ultimately show ?thesis using unique_locations_collide by simp
qed

text \<open>
  \<^bold>\<open>C5.\<close> When the endpoint succeeds, its valid records are the parsed records whose
  latitude and longitude are truthy, whose figure is greater than zero, whose
  \<open>displacement_date\<close> is truthy and whose country is the string \<open>Palestine\<close>, in order;
  each of them has a number as its figure; \<open>total_events\<close> is their number and
  \<open>total_displaced\<close> is the sum of their figures, added from zero in their order.
\<close>

theorem valid_records_and_total:
  assumes "GET_body lx fs = Inr p"
  shows "\<exists>content records.
           fs ''data/event_data_pse.csv'' = Inr content \<and>
           parse_events lx content = Inr records \<and>
           validRecords records =
             filter (\<lambda>r. truthy (get_prop r ''latitude'') \<and> truthy (get_prop r ''longitude'') \<and>
                          num_less (Fin 0) (ToNumber (get_prop r ''figure'')) \<and>
                          truthy (get_prop r ''displacement_date'') \<and>
                          get_prop r ''country'' = Str ''Palestine'') records \<and>
           (\<forall>r\<in>set (validRecords records). \<exists>n. get_prop r ''figure'' = Num n \<and> num_less (Fin 0) n) \<and>
           total_events (summary p) = length (validRecords records) \<and>
           total_displaced (summary p) = foldl js_add (Fin 0) (map figure (validRecords records))"
proof -
  from GET_body_Inr[OF assms] obtain content records where
    c: "fs ''data/event_data_pse.csv'' = Inr content"
    and pr: "parse_events lx content = Inr records"
    and ep: "events_payload records = Inr p" by blast
  have v: "validRecords records =
             filter (\<lambda>r. truthy (get_prop r ''latitude'') \<and> truthy (get_prop r ''longitude'') \<and>
                          num_less (Fin 0) (ToNumber (get_prop r ''figure'')) \<and>
                          truthy (get_prop r ''displacement_date'') \<and>
                          get_prop r ''country'' = Str ''Palestine'') records"
    unfolding validRecords_def
    by (rule filter_cong) (simp_all add: is_valid_event_def num_gt_def)
  have fig: "\<forall>r\<in>set (validRecords records). \<exists>n. get_prop r ''figure'' = Num n \<and> num_less (Fin 0) n"
  proof
    fix r assume r: "r \<in> set (validRecords records)"
    then have rr: "r \<in> set records" and pos: "num_less (Fin 0) (ToNumber (get_prop r ''figure''))"
      by (simp_all add: validRecords_def is_valid_event_def num_gt_def)
    from parse_events_typed[OF pr rr] pos
    show "\<exists>n. get_prop r ''figure'' = Num n \<and> num_less (Fin 0) n"
      by (auto simp: ToNumber_def)
  qed
  from events_payload_Inr(3)[OF ep] have
    "total_events (summary p) = length (validRecords records)"
    "total_displaced (summary p) = foldl js_add (Fin 0) (map figure (validRecords records))"
    by (simp_all add: sum_figures_def foldl_map_figure)
  with c pr v fig show ?thesis by blast
qed

theorem valid_records_and_total_witness:
  "GET_body simple_lex (single_file ''data/event_data_pse.csv'' events_demo) = Inr events_demo_payload \<and>
   validRecords events_demo_records = [gaza_shelter, ramallah_center] \<and>
   total_events (summary events_demo_payload) = 2 \<and>
   total_displaced (summary events_demo_payload) =
     foldl js_add (Fin 0) (map figure [gaza_shelter, ramallah_center]) \<and>
   total_displaced (summary events_demo_payload) = Fin 350"
proof -
  from valid_records_and_total[OF events_demo_body] obtain content records where
    c: "single_file ''data/event_data_pse.csv'' events_demo ''data/event_data_pse.csv'' = Inr content"
    and p: "parse_events simple_lex content = Inr records"
    and n: "total_events (summary events_demo_payload) = length (validRecords records)"
    and t: "total_displaced (summary events_demo_payload) =
              foldl js_add (Fin 0) (map figure (validRecords records))"
    by blast
  from c have "content = events_demo" by (simp add: single_file_def)
  with p have r: "records = events_demo_records" by (simp add: events_demo_parsed)
  have "total_displaced (summary events_demo_payload) = Fin 350"
    by (simp add: events_demo_payload_def)
  with n t r events_demo_valid events_demo_body show ?thesis by simp
qed

text \<open>
  \<^bold>\<open>C6.\<close> The claim as it stands, with the sums of the two groups adding up to the total
  for every file, fails: the additions are those of doubles, and with the figures
  \<open>10 ^ 16\<close>, \<open>1\<close> and \<open>1\<close> the total is \<open>10 ^ 16\<close> while the sums of the groups add up to
  \<open>10 ^ 16 + 2\<close>.
\<close>

theorem events_partition_counterexample:
  "\<exists>p. GET_body simple_lex (single_file ''data/event_data_pse.csv'' large_figures_demo) = Inr p \<and>
       total_displaced (summary p) = Fin 10000000000000000 \<and>
       js_add (gaza_displaced (summary p)) (west_bank_displaced (summary p)) = Fin 10000000000000002 \<and>
       js_add (gaza_displaced (summary p)) (west_bank_displaced (summary p)) \<noteq> total_displaced (summary p)"
  by (simp add: large_figures_body large_figures_sum del: js_add.simps)

text \<open>
  \<^bold>\<open>C6, amended.\<close> When the endpoint succeeds, \<open>gaza_events\<close> holds the valid records whose
  \<open>locations_name\<close> contains \<open>gaza\<close> in any case and \<open>west_bank_events\<close> the other valid
  records, so every valid record is in exactly one of them and the two counts add up to
  \<open>total_events\<close>; and when the figures of the valid records are whole numbers whose sum is
  below \<open>2 ^ 53\<close>, \<open>gaza_displaced + west_bank_displaced\<close> is \<open>total_displaced\<close>.
\<close>

theorem events_partition:
  assumes "GET_body lx fs = Inr p"
  shows "\<exists>content records.
           fs ''data/event_data_pse.csv'' = Inr content \<and>
           parse_events lx content = Inr records \<and>
           gaza_events p = filter names_gaza (validRecords records) \<and>
           west_bank_events p = filter (\<lambda>r. \<not> names_gaza r) (validRecords records) \<and>
           (\<forall>r\<in>set (validRecords records).
              (r \<in> set (gaza_events p)) \<noteq> (r \<in> set (west_bank_events p))) \<and>
           gaza_events_count (summary p) + west_bank_events_count (summary p) =
             total_events (summary p) \<and>
           (exact_total (validRecords records) \<longrightarrow>
              js_add (gaza_displaced (summary p)) (west_bank_displaced (summary p)) =
                total_displaced (summary p))"
proof -
  from GET_body_Inr[OF assms] obtain content records where
    c: "fs ''data/event_data_pse.csv'' = Inr content"
    and pr: "parse_events lx content = Inr records"
    and ep: "events_payload records = Inr p" by blast
  let ?valid = "validRecords records"
  let ?f = "\<lambda>r. value_of (figure r)"
  note E = events_payload_Inr[OF ep]
  have part: "\<forall>r\<in>set ?valid. (r \<in> set (gaza_events p)) \<noteq> (r \<in> set (west_bank_events p))"
    by (auto simp: E(1,2))
  have counts: "gaza_events_count (summary p) + west_bank_events_count (summary p) =
             total_events (summary p)"
    by (simp add: E(3)) (simp add: E(1,2) sum_length_filter_compl)
  have sums: "js_add (gaza_displaced (summary p)) (west_bank_displaced (summary p)) =
                total_displaced (summary p)" if ex: "exact_total ?valid"
  proof -
    have g: "sum_figures (gaza_events p) = Fin (sum_list (map ?f (filter names_gaza ?valid)))"
      unfolding E(1) by (rule sum_figures_exact[OF exact_total_filter[OF ex]])
    have w: "sum_figures (west_bank_events p) =
               Fin (sum_list (map ?f (filter (\<lambda>r. \<not> names_gaza r) ?valid)))"
      unfolding E(2) by (rule sum_figures_exact[OF exact_total_filter[OF ex]])
    have t: "sum_figures ?valid = Fin (sum_list (map ?f ?valid))"
      by (rule sum_figures_exact[OF ex])
    have wl: "list_all (\<lambda>r. whole_number (figure r)) ?valid"
      and bound: "sum_list (map ?f ?valid) < 2 ^ 53"
      using ex by (simp_all add: exact_total_def)
    have wf: "list_all (\<lambda>r. whole_number (figure r)) (filter P ?valid)" for P
      using wl by (simp add: list_all_iff)
    have "js_add (Fin (sum_list (map ?f (filter names_gaza ?valid))))
                 (Fin (sum_list (map ?f (filter (\<lambda>r. \<not> names_gaza r) ?valid)))) =
          Fin (sum_list (map ?f (filter names_gaza ?valid)) +
               sum_list (map ?f (filter (\<lambda>r. \<not> names_gaza r) ?valid)))"
      using whole_sum_list[OF wf[of names_gaza]] whole_sum_list[OF wf[of "\<lambda>r. \<not> names_gaza r"]]
        bound sum_list_filter_split[of ?f names_gaza ?valid]
      by (intro js_add_whole) simp_all
    then show ?thesis
      using E(3) g w t sum_list_filter_split[of ?f names_gaza ?valid] by simp
  qed
  from c pr E(1,2) part counts sums show ?thesis by blast
qed

theorem events_partition_witness:
  "GET_body simple_lex (single_file ''data/event_data_pse.csv'' events_demo) = Inr events_demo_payload \<and>
   exact_total (validRecords events_demo_records) \<and>
   gaza_events events_demo_payload = filter names_gaza (validRecords events_demo_records) \<and>
   west_bank_events events_demo_payload = filter (\<lambda>r. \<not> names_gaza r) (validRecords events_demo_records) \<and>
   gaza_events_count (summary events_demo_payload) + west_bank_events_count (summary events_demo_payload) =
     total_events (summary events_demo_payload) \<and>
   js_add (gaza_displaced (summary events_demo_payload)) (west_bank_displaced (summary events_demo_payload)) =
     total_displaced (summary events_demo_payload)"
proof -
  from events_partition[OF events_demo_body] obtain content records where
    c: "single_file ''data/event_data_pse.csv'' events_demo ''data/event_data_pse.csv'' = Inr content"
    and p: "parse_events simple_lex content = Inr records"
    and g: "gaza_events events_demo_payload = filter names_gaza (validRecords records)"
    and w: "west_bank_events events_demo_payload = filter (\<lambda>r. \<not> names_gaza r) (validRecords records)"
    and n: "gaza_events_count (summary events_demo_payload) + west_bank_events_count (summary events_demo_payload) =
              total_events (summary events_demo_payload)"
    and s: "exact_total (validRecords records) \<longrightarrow>
              js_add (gaza_displaced (summary events_demo_payload)) (west_bank_displaced (summary events_demo_payload)) =
                total_displaced (summary events_demo_payload)"
    by blast
  from c have "content = events_demo" by (simp add: single_file_def)
  with p have r: "records = events_demo_records" by (simp add: events_demo_parsed)
  have ex: "exact_total (validRecords events_demo_records)"
    by (simp add: events_demo_valid events_demo_exact)
  from events_demo_body ex g w n s show ?thesis unfolding r by blast
qed

text \<open>
  \<^bold>\<open>C7.\<close> The lines of the text the endpoint parses are the lines of the file without the
  line of index 1: line 0 stays first and the lines from index 2 on follow. With the
  lexer of plain text, a file whose first line is not empty gives one record for each line
  from index 2 on that is not empty; a header, a metadata line and three data rows give
  three records.
\<close>

theorem cleaned_lines:
  "split_on (CHR 0x0A) (cleanedCSV content) =
     take 1 (split_on (CHR 0x0A) content) @ drop 2 (split_on (CHR 0x0A) content) \<and>
   (\<forall>records. parse_events simple_lex content = Inr records \<and>
      take 1 (split_on (CHR 0x0A) content) \<noteq> [[]] \<longrightarrow>
      length records = length (filter (\<lambda>l. l \<noteq> []) (drop 2 (split_on (CHR 0x0A) content))))"
proof (intro conjI allI impI)
  show "split_on (CHR 0x0A) (cleanedCSV content) =
     take 1 (split_on (CHR 0x0A) content) @ drop 2 (split_on (CHR 0x0A) content)"
    by (rule lines_cleanedCSV)
next
  fix records
  assume a: "parse_events simple_lex content = Inr records \<and>
      take 1 (split_on (CHR 0x0A) content) \<noteq> [[]]"
  obtain l ls where sp: "split_on (CHR 0x0A) content = l # ls"
    using split_on_nonempty[of "CHR 0x0A" content] by (cases "split_on (CHR 0x0A) content") auto
  with a have l: "l \<noteq> []" by simp
  have lexed: "simple_lex (cleanedCSV content) =
          (split_on CHR '','' l # map (split_on CHR '','') (filter (\<lambda>l. l \<noteq> []) (drop 1 ls)), None)"
    using l by (simp add: simple_lex_def lines_cleanedCSV sp)
  have "parse_records cast_events (split_on CHR '','' l)
          (map (split_on CHR '','') (filter (\<lambda>l. l \<noteq> []) (drop 1 ls))) = Inr records"
    using parse_events_Inr[of simple_lex content records "split_on CHR '','' l"
        "map (split_on CHR '','') (filter (\<lambda>l. l \<noteq> []) (drop 1 ls))" None] a lexed
    by simp
  from parse_records_Inr[OF this]
  show "length records = length (filter (\<lambda>l. l \<noteq> []) (drop 2 (split_on (CHR 0x0A) content)))"
    by (simp add: sp drop_Suc)
qed

theorem cleaned_lines_witness:
  "split_on (CHR 0x0A) (cleanedCSV three_rows_demo) = [''id,event_name'', ''1,a'', ''2,b'', ''3,c''] \<and>
   (\<exists>records. parse_events simple_lex three_rows_demo = Inr records \<and> length records = 3)"
proof -
  note T = cleaned_lines[of three_rows_demo]
  from T have "split_on (CHR 0x0A) (cleanedCSV three_rows_demo) =
     take 1 (split_on (CHR 0x0A) three_rows_demo) @ drop 2 (split_on (CHR 0x0A) three_rows_demo)"
    by blast
  then have a: "split_on (CHR 0x0A) (cleanedCSV three_rows_demo) = [''id,event_name'', ''1,a'', ''2,b'', ''3,c'']"
    by (simp add: three_rows_lines)
  from T three_rows_parsed have
    "length [[(''id'', Str ''1''), (''event_name'', Str ''a'')],
             [(''id'', Str ''2''), (''event_name'', Str ''b'')],
             [(''id'', Str ''3''), (''event_name'', Str ''c'')]] =
     length (filter (\<lambda>l. l \<noteq> []) (drop 2 (split_on (CHR 0x0A) three_rows_demo)))"
    by (simp add: three_rows_lines)
  with a three_rows_parsed show ?thesis by simp
qed

text \<open>
  \<^bold>\<open>C8.\<close> When the library returns records to \<open>parseCSVWithCoordinates\<close>, the function
  returns exactly these records, in order and unchanged, whatever \<open>validateCoordinates\<close> says
  of them; a record gives at most one warning on the console, and gives it only when its
  coordinates fail the validation.
\<close>

theorem validation_keeps_records:
  assumes "parse lx (cast_generic numericColumns coordinateColumns) content = Inr parsed"
  shows "parseCSVWithCoordinates lx content numericColumns coordinateColumns =
           Inr (parsed, concat (map (coordinate_warning coordinateColumns) parsed)) \<and>
         (\<forall>r\<in>set parsed.
            coordinate_warning coordinateColumns r = [] \<or>
            coordinate_warning coordinateColumns r =
              [WarnInvalidCoordinates (get_prop r ''location'')
                 (get_prop r (key_at coordinateColumns 0)) (get_prop r (key_at coordinateColumns 1))] \<and>
            \<not> validateCoordinates (ToNumber (get_prop r (key_at coordinateColumns 0)))
                                  (ToNumber (get_prop r (key_at coordinateColumns 1))))"
  using assms by (auto simp: parseCSVWithCoordinates_def coordinate_warning_def Let_def)

theorem validation_keeps_records_witness:
  "parse simple_lex (cast_generic [''latitude'', ''longitude''] [''latitude'', ''longitude''])
     places_demo = Inr places_demo_records \<and>
   parseCSVWithCoordinates simple_lex places_demo [''latitude'', ''longitude''] [''latitude'', ''longitude''] =
     Inr (places_demo_records, [WarnInvalidCoordinates (Str ''Far Away'') (Num (Fin 40)) (Num (Fin 34))]) \<and>
   \<not> validateCoordinates (Fin 40) (Fin 34)"
  using validation_keeps_records[OF places_parsed] places_parsed places_warnings far_away_outside
  by simp

text \<open>
  \<^bold>\<open>C9.\<close> Whatever a generic loader throws is the \<open>Error\<close> with its fixed message, and it
  throws it when the file cannot be read and when the parser fails; the endpoint answers
  with status 500 and the fixed message whenever a step in its \<open>try\<close> block throws: reading
  the file, parsing it, or computing the payload.
\<close>

theorem loader_failures_are_uniform:
  "(\<forall>e. fst (loadCasualtiesData lx fs) = Inl e \<longrightarrow> e = Error ''Failed to load casualties data'') \<and>
   (\<forall>e. fst (loadInfrastructureData lx fs) = Inl e \<longrightarrow> e = Error ''Failed to load infrastructure data'') \<and>
   (\<forall>e. fst (loadDisplacementData lx fs) = Inl e \<longrightarrow> e = Error ''Failed to load displacement data'') \<and>
   (\<forall>e. fs ''data/casualties.csv'' = Inl e \<longrightarrow>
      fst (loadCasualtiesData lx fs) = Inl (Error ''Failed to load casualties data'')) \<and>
   (\<forall>e content. fs ''data/casualties.csv'' = Inr content \<and>
      parseCSVWithCoordinates lx content
        [''killed'', ''injured'', ''children_killed'', ''women_killed'', ''latitude'', ''longitude'']
        [''latitude'', ''longitude''] = Inl e \<longrightarrow>
      fst (loadCasualtiesData lx fs) = Inl (Error ''Failed to load casualties data'')) \<and>
   (\<forall>e. fs ''data/infrastructure.csv'' = Inl e \<longrightarrow>
      fst (loadInfrastructureData lx fs) = Inl (Error ''Failed to load infrastructure data'')) \<and>
   (\<forall>e content. fs ''data/infrastructure.csv'' = Inr content \<and>
      parseCSVWithCoordinates lx content
        [''hospitals_damaged'', ''schools_damaged'', ''homes_destroyed'', ''latitude'', ''longitude'']
        [''latitude'', ''longitude''] = Inl e \<longrightarrow>
      fst (loadInfrastructureData lx fs) = Inl (Error ''Failed to load infrastructure data'')) \<and>
   (\<forall>e. fs ''data/displacement.csv'' = Inl e \<longrightarrow>
      fst (loadDisplacementData lx fs) = Inl (Error ''Failed to load displacement data'')) \<and>
   (\<forall>e content. fs ''data/displacement.csv'' = Inr content \<and>
      parseCSVWithCoordinates lx content
        [''people_displaced'', ''displacement_centers'', ''capacity'', ''latitude'', ''longitude'']
        [''latitude'', ''longitude''] = Inl e \<longrightarrow>
      fst (loadDisplacementData lx fs) = Inl (Error ''Failed to load displacement data'')) \<and>
   (\<forall>e. GET_body lx fs = Inl e \<longrightarrow>
      fst (GET lx fs) = Response 500 (Failure ''Failed to load displacement events data'')) \<and>
   (\<forall>e. fs ''data/event_data_pse.csv'' = Inl e \<longrightarrow>
      fst (GET lx fs) = Response 500 (Failure ''Failed to load displacement events data'')) \<and>
   (\<forall>e content. fs ''data/event_data_pse.csv'' = Inr content \<and> parse_events lx content = Inl e \<longrightarrow>
      fst (GET lx fs) = Response 500 (Failure ''Failed to load displacement events data'')) \<and>
   (\<forall>content records e. fs ''data/event_data_pse.csv'' = Inr content \<and>
      parse_events lx content = Inr records \<and> events_payload records = Inl e \<longrightarrow>
      fst (GET lx fs) = Response 500 (Failure ''Failed to load displacement events data''))"
proof (intro conjI allI impI)
  fix e assume "fst (loadCasualtiesData lx fs) = Inl e"
  then show "e = Error ''Failed to load casualties data''"
    unfolding loadCasualtiesData_def
    by (auto dest!: load_generic_Inl simp only: casualties_message)
next
  fix e assume "fst (loadInfrastructureData lx fs) = Inl e"
  then show "e = Error ''Failed to load infrastructure data''"
    unfolding loadInfrastructureData_def
    by (auto dest!: load_generic_Inl simp only: infrastructure_message)
next
  fix e assume "fst (loadDisplacementData lx fs) = Inl e"
  then show "e = Error ''Failed to load displacement data''"
    unfolding loadDisplacementData_def
    by (auto dest!: load_generic_Inl simp only: displacement_message)
next
  fix e assume "fs ''data/casualties.csv'' = Inl e"
  then show "fst (loadCasualtiesData lx fs) = Inl (Error ''Failed to load casualties data'')"
    unfolding loadCasualtiesData_def
    by (simp only: load_generic_unreadable casualties_message)
next
  fix e content
  assume "fs ''data/casualties.csv'' = Inr content \<and>
      parseCSVWithCoordinates lx content
        [''killed'', ''injured'', ''children_killed'', ''women_killed'', ''latitude'', ''longitude'']
        [''latitude'', ''longitude''] = Inl e"
  then show "fst (loadCasualtiesData lx fs) = Inl (Error ''Failed to load casualties data'')"
    unfolding loadCasualtiesData_def
    by (elim conjE) (simp only: load_generic_parser_failure casualties_message)
next
  fix e assume "fs ''data/infrastructure.csv'' = Inl e"
  then show "fst (loadInfrastructureData lx fs) = Inl (Error ''Failed to load infrastructure data'')"
    unfolding loadInfrastructureData_def
    by (simp only: load_generic_unreadable infrastructure_message)
next
  fix e content
  assume "fs ''data/infrastructure.csv'' = Inr content \<and>
      parseCSVWithCoordinates lx content
        [''hospitals_damaged'', ''schools_damaged'', ''homes_destroyed'', ''latitude'', ''longitude'']
        [''latitude'', ''longitude''] = Inl e"
  then show "fst (loadInfrastructureData lx fs) = Inl (Error ''Failed to load infrastructure data'')"
    unfolding loadInfrastructureData_def
    by (elim conjE) (simp only: load_generic_parser_failure infrastructure_message)
next
  fix e assume "fs ''data/displacement.csv'' = Inl e"
  then show "fst (loadDisplacementData lx fs) = Inl (Error ''Failed to load displacement data'')"
    unfolding loadDisplacementData_def
    by (simp only: load_generic_unreadable displacement_message)
next
  fix e content
  assume "fs ''data/displacement.csv'' = Inr content \<and>
      parseCSVWithCoordinates lx content
        [''people_displaced'', ''displacement_centers'', ''capacity'', ''latitude'', ''longitude'']
        [''latitude'', ''longitude''] = Inl e"
  then show "fst (loadDisplacementData lx fs) = Inl (Error ''Failed to load displacement data'')"
    unfolding loadDisplacementData_def
    by (elim conjE) (simp only: load_generic_parser_failure displacement_message)
next
  fix e assume "GET_body lx fs = Inl e"
  then show "fst (GET lx fs) = Response 500 (Failure ''Failed to load displacement events data'')"
    by (simp add: GET_def)
next
  fix e assume "fs ''data/event_data_pse.csv'' = Inl e"
  then have "GET_body lx fs = Inl e" by (simp add: GET_body_def)
  then show "fst (GET lx fs) = Response 500 (Failure ''Failed to load displacement events data'')"
    by (simp add: GET_def)
next
  fix e content
  assume "fs ''data/event_data_pse.csv'' = Inr content \<and> parse_events lx content = Inl e"
  then have "GET_body lx fs = Inl e" by (simp add: GET_body_def)
  then show "fst (GET lx fs) = Response 500 (Failure ''Failed to load displacement events data'')"
    by (simp add: GET_def)
next
  fix e content records
  assume "fs ''data/event_data_pse.csv'' = Inr content \<and>
      parse_events lx content = Inr records \<and> events_payload records = Inl e"
  then have "GET_body lx fs = Inl e" by (simp add: GET_body_def)
  then show "fst (GET lx fs) = Response 500 (Failure ''Failed to load displacement events data'')"
    by (simp add: GET_def)
qed

theorem loader_failures_are_uniform_witness:
  "fst (loadCasualtiesData simple_lex (single_file ''data/event_data_pse.csv'' events_demo)) =
     Inl (Error ''Failed to load casualties data'') \<and>
   fst (loadCasualtiesData simple_lex (single_file ''data/casualties.csv'' bad_places_demo)) =
     Inl (Error ''Failed to load casualties data'') \<and>
   fst (GET simple_lex (single_file ''data/casualties.csv'' bad_places_demo)) =
     Response 500 (Failure ''Failed to load displacement events data'')"
proof -
  have m1: "single_file ''data/event_data_pse.csv'' events_demo ''data/casualties.csv'' = Inl (FsError ''ENOENT'')"
    by (simp add: single_file_def)
  have m2: "single_file ''data/casualties.csv'' bad_places_demo ''data/casualties.csv'' = Inr bad_places_demo"
    by (simp add: single_file_def)
  have m3: "single_file ''data/casualties.csv'' bad_places_demo ''data/event_data_pse.csv'' = Inl (FsError ''ENOENT'')"
    by (simp add: single_file_def)
  from loader_failures_are_uniform[of simple_lex "single_file ''data/event_data_pse.csv'' events_demo"] m1
  have a: "fst (loadCasualtiesData simple_lex (single_file ''data/event_data_pse.csv'' events_demo)) =
     Inl (Error ''Failed to load casualties data'')" by blast
  from loader_failures_are_uniform[of simple_lex "single_file ''data/casualties.csv'' bad_places_demo"]
    m2 bad_places_casualties
  have b: "fst (loadCasualtiesData simple_lex (single_file ''data/casualties.csv'' bad_places_demo)) =
     Inl (Error ''Failed to load casualties data'')" by blast
  from loader_failures_are_uniform[of simple_lex "single_file ''data/casualties.csv'' bad_places_demo"] m3
  have c: "fst (GET simple_lex (single_file ''data/casualties.csv'' bad_places_demo)) =
     Response 500 (Failure ''Failed to load displacement events data'')" by blast
  from a b c show ?thesis by blast
qed

text \<open>
  \<^bold>\<open>C10.\<close> In the endpoint, for a file that is read, whose cleaned text gives a header with a
  \<open>locations_name\<close> column and data records of the header's length: the parse succeeds with
  one record for each data record and the answer has status 200, whatever the numeric
  fields hold; a field under \<open>latitude\<close>, \<open>longitude\<close>, \<open>figure\<close> or \<open>year\<close> that
  \<open>parseFloat\<close> reads as \<open>NaN\<close> becomes the number 0, and under the first three of them
  the record is not among the valid records.
\<close>

theorem events_numeric_coercion:
  assumes fs: "fs ''data/event_data_pse.csv'' = Inr content"
    and lx: "lx (cleanedCSV content) = (header # rows, None)"
    and wf: "\<forall>r\<in>set rows. length r = length header"
    and loc: "''locations_name'' \<in> set header"
  shows "\<exists>records payload.
           parse_events lx content = Inr records \<and> length records = length rows \<and>
           GET lx fs = (Response 200 (Success payload), []) \<and>
           (\<forall>k<length rows. \<forall>i<length header.
              header ! i \<in> {''latitude'', ''longitude'', ''figure'', ''year''} \<and>
              (\<forall>j. i < j \<and> j < length header \<longrightarrow> header ! j \<noteq> header ! i) \<and>
              isNaN (parseFloat (rows ! k ! i)) \<longrightarrow>
              get_prop (records ! k) (header ! i) = Num (Fin 0) \<and>
              (header ! i \<noteq> ''year'' \<longrightarrow> records ! k \<notin> set (validRecords records)))"
proof -
  from parse_events_succeeds[of lx content header rows, OF lx wf] obtain records where
    pe: "parse_events lx content = Inr records"
    and pr: "parse_records cast_events header rows = Inr records" by blast
  note P = parse_records_Inr[OF pr]
  have len: "length records = length rows" using P by simp
  have names: "\<forall>r\<in>set (validRecords records). \<exists>s. get_prop r ''locations_name'' = Str s"
  proof
    fix r assume "r \<in> set (validRecords records)"
    then have "r \<in> set records" by (simp add: validRecords_def)
    then obtain k where k: "k < length rows" "records ! k = r"
      using len by (auto simp: in_set_conv_nth)
    from last_occurrence[OF loc] obtain i where
      i: "i < length header" "header ! i = ''locations_name''"
      "\<forall>j. i < j \<and> j < length header \<longrightarrow> header ! j \<noteq> ''locations_name''" by blast
    have "cast_events (rows ! k ! i) (ColName (header ! i)) =
            Inr (get_prop (records ! k) (header ! i))"
      using parse_records_cells[OF pr k(1) i(1)] i(2,3) by simp
    then have "get_prop (records ! k) ''locations_name'' = Str (rows ! k ! i)"
      using i(2) by (simp add: cast_events_ColName)
    then show "\<exists>s. get_prop r ''locations_name'' = Str s"
      using k(2) by blast
  qed
  from events_payload_succeeds[OF names] obtain payload where
    "events_payload records = Inr payload" by blast
  then have get: "GET lx fs = (Response 200 (Success payload), [])"
    by (simp add: GET_def GET_body_def fs pe)
  have cells: "\<forall>k<length rows. \<forall>i<length header.
              header ! i \<in> {''latitude'', ''longitude'', ''figure'', ''year''} \<and>
              (\<forall>j. i < j \<and> j < length header \<longrightarrow> header ! j \<noteq> header ! i) \<and>
              isNaN (parseFloat (rows ! k ! i)) \<longrightarrow>
              get_prop (records ! k) (header ! i) = Num (Fin 0) \<and>
              (header ! i \<noteq> ''year'' \<longrightarrow> records ! k \<notin> set (validRecords records))"
  proof (intro allI impI)
    fix k i
    assume k: "k < length rows" and i: "i < length header"
      and h: "header ! i \<in> {''latitude'', ''longitude'', ''figure'', ''year''} \<and>
              (\<forall>j. i < j \<and> j < length header \<longrightarrow> header ! j \<noteq> header ! i) \<and>
              isNaN (parseFloat (rows ! k ! i))"
    have "cast_events (rows ! k ! i) (ColName (header ! i)) =
            Inr (get_prop (records ! k) (header ! i))"
      using parse_records_cells[OF pr k i] h by simp
    moreover have "cast_events (rows ! k ! i) (ColName (header ! i)) = Inr (Num (Fin 0))"
      using h by (simp only: cast_events_ColName if_True)
    ultimately have zero: "get_prop (records ! k) (header ! i) = Num (Fin 0)" by simp
    have "\<not> is_valid_event (records ! k)" if "header ! i \<noteq> ''year''"
    proof -
      from h that have "header ! i = ''latitude'' \<or> header ! i = ''longitude'' \<or> header ! i = ''figure''"
        by blast
      then show ?thesis
        using zero by (auto simp: is_valid_event_def truthy_def ToNumber_def num_gt_def)
    qed
    then show "get_prop (records ! k) (header ! i) = Num (Fin 0) \<and>
              (header ! i \<noteq> ''year'' \<longrightarrow> records ! k \<notin> set (validRecords records))"
      using zero by (simp add: validRecords_def)
  qed
  from pe len get cells show ?thesis by blast
qed

theorem events_numeric_coercion_witness:
  "isNaN (parseFloat ''n/a'') \<and>
   (\<exists>records payload.
      parse_events simple_lex events_demo = Inr records \<and> length records = 4 \<and>
      GET simple_lex (single_file ''data/event_data_pse.csv'' events_demo) =
        (Response 200 (Success payload), []) \<and>
      get_prop (records ! 2) ''figure'' = Num (Fin 0) \<and>
      records ! 2 \<notin> set (validRecords records))"
proof -
  let ?h = "[''country'', ''latitude'', ''longitude'', ''figure'', ''displacement_date'', ''locations_name'']"
  let ?rows = "[[''Palestine'', ''31.5'', ''34.5'', ''100'', ''2023-10-07'', ''Gaza City Shelter''],
     [''Palestine'', ''31'', ''35'', ''250'', ''2023-10-08'', ''Ramallah Center''],
     [''Palestine'', ''31'', ''34'', ''n/a'', ''2023-10-09'', ''Gaza''],
     [''Israel'', ''31'', ''34'', ''50'', ''2023-10-10'', ''Gaza'']]"
  have f: "single_file ''data/event_data_pse.csv'' events_demo ''data/event_data_pse.csv'' = Inr events_demo"
    by (simp add: single_file_def)
  have wf: "\<forall>r\<in>set ?rows. length r = length ?h" by simp
  have loc: "''locations_name'' \<in> set ?h" by simp
  from events_numeric_coercion[of "single_file ''data/event_data_pse.csv'' events_demo" events_demo
      simple_lex ?h ?rows, OF f events_demo_lexed wf loc]
  obtain records payload where
    p: "parse_events simple_lex events_demo = Inr records" and l: "length records = length ?rows"
    and g: "GET simple_lex (single_file ''data/event_data_pse.csv'' events_demo) =
        (Response 200 (Success payload), [])"
    and c: "\<forall>k<length ?rows. \<forall>i<length ?h.
              ?h ! i \<in> {''latitude'', ''longitude'', ''figure'', ''year''} \<and>
              (\<forall>j. i < j \<and> j < length ?h \<longrightarrow> ?h ! j \<noteq> ?h ! i) \<and>
              isNaN (parseFloat (?rows ! k ! i)) \<longrightarrow>
              get_prop (records ! k) (?h ! i) = Num (Fin 0) \<and>
              (?h ! i \<noteq> ''year'' \<longrightarrow> records ! k \<notin> set (validRecords records))"
    by blast
  have d: "distinct ?h" by simp
  have lastocc: "\<forall>j. 3 < j \<and> j < length ?h \<longrightarrow> ?h ! j \<noteq> ?h ! 3"
    using distinct_last[OF d, of 3] by simp
  have k: "(2::nat) < length ?rows" and i: "(3::nat) < length ?h" by simp_all
  have h3: "?h ! 3 = ''figure''" by simp
  have cell: "isNaN (parseFloat (?rows ! 2 ! 3))" using parseFloat_n_a by simp
  from c[THEN spec, THEN mp, OF k, THEN spec, THEN mp, OF i] lastocc cell
  have "get_prop (records ! 2) (?h ! 3) = Num (Fin 0) \<and>
        (?h ! 3 \<noteq> ''year'' \<longrightarrow> records ! 2 \<notin> set (validRecords records))"
    unfolding h3 by simp
  then have z: "get_prop (records ! 2) ''figure'' = Num (Fin 0)"
    and v: "records ! 2 \<notin> set (validRecords records)"
    unfolding h3 by simp_all
  from l have "length records = 4" by simp
  with p g z v parseFloat_n_a show ?thesis by blast
qed

end
